theory Spec2Isabelle
  imports Main
begin

section \<open>Activities and conversation references\<close>

text \<open>
  The schema types come from the package botframework-schema, which turnContext.ts only
  imports. An activity is a \<^verbatim>\<open>Partial<Activity>\<close>: every property may be missing, so
  every field is an option (\<open>None\<close> is JavaScript's \<^verbatim>\<open>undefined\<close>). The account objects held
  in \<^verbatim>\<open>from\<close>, \<^verbatim>\<open>recipient\<close> and \<^verbatim>\<open>conversation\<close> are never inspected by the code below, so
  their types are the parameters \<open>'u\<close> (a channel account) and \<open>'c\<close> (a conversation
  account): instantiated with values they give the value of an activity, instantiated
  with addresses they give an activity object on a heap.
\<close>

record TokenResponse =
  tr_connectionName :: string
  tr_token :: string
  tr_expiration :: string

datatype Card =
    OAuthCard (card_connectionName: string) (card_title: string) (card_text: "string option")
  | OtherCard string

record Attachment =
  contentType :: "string option"
  content :: Card

record ('u, 'c) Activity =
  a_type :: "string option"
  a_id :: "string option"
  a_replyToId :: "string option"
  a_name :: "string option"
  a_text :: "string option"
  a_locale :: "string option"
  a_value :: "TokenResponse option"
  a_channelId :: "string option"
  a_serviceUrl :: "string option"
  a_from :: "'u option"
  a_recipient :: "'u option"
  a_conversation :: "'c option"
  a_attachments :: "Attachment list option"
  a_speak :: "string option"
  a_inputHint :: "string option"

record ('u, 'c) ConversationReference =
  activityId :: "string option"
  user :: "'u option"
  bot' :: "'u option"
  conversation :: "'c option"
  channelId :: "string option"
  serviceUrl :: "string option"

text \<open>JavaScript truthiness of an optional string: defined and not the empty string.\<close>

definition truthy :: "string option \<Rightarrow> bool" where
  "truthy v = (case v of None \<Rightarrow> False | Some s \<Rightarrow> s \<noteq> [])"

text \<open>
  Modelled from the spec: \<^verbatim>\<open>shallowCopy\<close> (module ./internal of botbuilder-core, not among
  the sources) makes the "defensive copy" of the spec. On values a copy is equal to its
  original; \<open>shallowCopy_h\<close> below is the same helper on a heap, where the copy is a new
  object.
\<close>

definition shallowCopy :: "'a option \<Rightarrow> 'a option" where
  "shallowCopy v = v"

definition getConversationReference ::
  "('u, 'c) Activity \<Rightarrow> ('u, 'c) ConversationReference" where
  "getConversationReference activity =
     \<lparr> activityId = a_id activity,
       user = shallowCopy (a_from activity),
       bot' = shallowCopy (a_recipient activity),
       conversation = shallowCopy (a_conversation activity),
       channelId = a_channelId activity,
       serviceUrl = a_serviceUrl activity \<rparr>"

text \<open>
  \<^verbatim>\<open>applyConversationReference(activity, reference, isIncoming = false)\<close> assigns to the
  properties of \<open>activity\<close> and returns it; the result below is the activity after the
  assignments.
\<close>

definition applyConversationReference ::
  "('u, 'c) Activity \<Rightarrow> ('u, 'c) ConversationReference \<Rightarrow> bool \<Rightarrow> ('u, 'c) Activity" where
  "applyConversationReference activity reference isIncoming =
     (let a1 = activity\<lparr> a_channelId := channelId reference \<rparr>;
          a2 = a1\<lparr> a_serviceUrl := serviceUrl reference \<rparr>;
          a3 = a2\<lparr> a_conversation := conversation reference \<rparr>
      in if isIncoming then
           (let a4 = a3\<lparr> a_from := user reference \<rparr>;
                a5 = a4\<lparr> a_recipient := bot' reference \<rparr>
            in if truthy (activityId reference) then a5\<lparr> a_id := activityId reference \<rparr> else a5)
         else
           (let a4 = a3\<lparr> a_from := bot' reference \<rparr>;
                a5 = a4\<lparr> a_recipient := user reference \<rparr>
            in if truthy (activityId reference)
               then a5\<lparr> a_replyToId := activityId reference \<rparr> else a5))"

section \<open>The turn context\<close>

text \<open>
  A JavaScript \<^verbatim>\<open>Error\<close> carries only a message; the constructors name the messages by
  the taxonomy of the spec. \<open>Failure\<close> is an error raised by a collaborator (the adapter,
  a handler, the storage client).
\<close>

datatype error =
    InvalidStateTransition
  | UnsupportedAdapter
  | MalformedPrompt
  | KeysRequired
  | KeyRequired
  | Failure string

text \<open>
  A call of a function that returns a promise ends in one of two ways: the function
  throws, and no promise exists, or it returns the promise, which is taken by the
  outcome it settles with. The operations of the turn context below always return a
  promise; the result of a function that can throw is a \<open>call\<close>.
\<close>

datatype 'a call = Throws error | Returns 'a

datatype ResourceResponse = ResourceResponse (rr_id: string)

text \<open>
  The adapter (botAdapter.ts, only imported) is the transport. Its operations are taken
  as functions from the request to the outcome of the promise they return (\<open>Inl\<close>: the
  promise rejects). \<^verbatim>\<open>getUserToken\<close> and \<^verbatim>\<open>signOutUser\<close> exist on some adapters only,
  which the prompts probe with \<^verbatim>\<open>'getUserToken' in context.adapter\<close>.
\<close>

record ('u, 'c) BotAdapter =
  adapter_sendActivities :: "('u, 'c) Activity list \<Rightarrow> error + ResourceResponse list"
  adapter_updateActivity :: "('u, 'c) Activity \<Rightarrow> error + unit"
  adapter_deleteActivity :: "('u, 'c) ConversationReference \<Rightarrow> error + unit"
  adapter_getUserToken :: "(string \<Rightarrow> string option \<Rightarrow> error + TokenResponse option) option"
  adapter_signOutUser :: "(string \<Rightarrow> error + unit) option"

text \<open>
  What a turn does that can be observed from outside is recorded in a trace: the effects
  of handlers, and every call of the adapter with what was passed and whether the call
  resolved.
\<close>

datatype ('u, 'c) event =
    HandlerEffect string
  | SendActivitiesCall "('u, 'c) Activity list" bool
  | UpdateActivityCall "('u, 'c) Activity" bool
  | DeleteActivityCall "('u, 'c) ConversationReference" bool
  | GetUserTokenCall string "string option"

text \<open>
  A handler is code of the bot: \<^verbatim>\<open>(context, arg, next) => Promiseable<R>\<close>. What it can
  do with the context and with \<open>next\<close> is: resolve with a result of its own, throw, have
  an effect that can be observed, read or assign \<^verbatim>\<open>context.responded\<close>, and await
  \<^verbatim>\<open>next()\<close>, continuing with its outcome (caught or not). A handler is applied to
  \<open>arg\<close> first, so a registered handler is a function from the argument to such a
  program.
\<close>

datatype 'r handler =
    Resolve 'r
  | Reject error
  | Effect string "'r handler"
  | SetResponded bool "'r handler"
  | GetResponded "bool \<Rightarrow> 'r handler"
  | CallNext "error + 'r \<Rightarrow> 'r handler"

text \<open>
  The private members of the class, and the trace of the turn. \<^verbatim>\<open>copyTo\<close> copies every
  member by reference, so a context made from another context is the same state under
  a second name; the model has one state for the turn. \<^verbatim>\<open>_services\<close>, which none of the
  operations below reads, is left out.
\<close>

record ('u, 'c) TurnContext =
  adapter :: "('u, 'c) BotAdapter"
  activity :: "('u, 'c) Activity"
  responded :: bool
  onSendActivities_handlers :: "(('u, 'c) Activity list \<Rightarrow> ResourceResponse list handler) list"
  onUpdateActivity_handlers :: "(('u, 'c) Activity \<Rightarrow> unit handler) list"
  onDeleteActivity_handlers :: "(('u, 'c) ConversationReference \<Rightarrow> unit handler) list"
  trace :: "('u, 'c) event list"

text \<open>
  An operation that returns a promise: from the context before to the outcome of the
  promise and the context after.
\<close>

type_synonym ('u, 'c, 'r) operation =
  "('u, 'c) TurnContext \<Rightarrow> (error + 'r) \<times> ('u, 'c) TurnContext"

definition TurnContext_new ::
  "('u, 'c) BotAdapter \<Rightarrow> ('u, 'c) Activity \<Rightarrow> ('u, 'c) TurnContext" where
  "TurnContext_new adapterOrContext request =
     \<lparr> adapter = adapterOrContext, activity = request, responded = False,
       onSendActivities_handlers = [], onUpdateActivity_handlers = [],
       onDeleteActivity_handlers = [], trace = [] \<rparr>"

text \<open>The setter of \<^verbatim>\<open>responded\<close>: it throws on a falsy value and stores \<open>true\<close> otherwise.\<close>

definition set_responded :: "bool \<Rightarrow> ('u, 'c, unit) operation" where
  "set_responded v ctx =
     (if \<not> v then (Inl InvalidStateTransition, ctx)
      else (Inr (), ctx\<lparr> responded := True \<rparr>))"

definition record_event :: "('u, 'c) event \<Rightarrow> ('u, 'c) TurnContext \<Rightarrow> ('u, 'c) TurnContext" where
  "record_event e ctx = ctx\<lparr> trace := trace ctx @ [e] \<rparr>"

primrec run :: "'r handler \<Rightarrow> ('u, 'c, 'r) operation \<Rightarrow> ('u, 'c, 'r) operation" where
  "run (Resolve v) next = (\<lambda>ctx. (Inr v, ctx))"
| "run (Reject e) next = (\<lambda>ctx. (Inl e, ctx))"
| "run (Effect l h) next = (\<lambda>ctx. run h next (record_event (HandlerEffect l) ctx))"
| "run (SetResponded v h) next =
     (\<lambda>ctx. case set_responded v ctx of
        (Inl e, ctx') \<Rightarrow> (Inl e, ctx')
      | (Inr _, ctx') \<Rightarrow> run h next ctx')"
| "run (GetResponded k) next = (\<lambda>ctx. run (k (responded ctx)) next ctx)"
| "run (CallNext k) next = (\<lambda>ctx. case next ctx of (r, ctx') \<Rightarrow> run (k r) next ctx')"

text \<open>
  \<^verbatim>\<open>emit\<close>: \<open>emitNext i\<close> calls handler \<open>i\<close> of the copied list with a continuation that
  is \<open>emitNext (i + 1)\<close>, and past the last handler it calls \<open>next\<close>. An exception thrown
  by a handler becomes a rejected promise; in the model both are \<open>Inl\<close>.
\<close>

function emitNext ::
  "('a \<Rightarrow> 'r handler) list \<Rightarrow> 'a \<Rightarrow> ('u, 'c, 'r) operation \<Rightarrow> nat \<Rightarrow> ('u, 'c, 'r) operation" where
  "emitNext list arg next i =
     (if i < length list then run ((list ! i) arg) (emitNext list arg next (i + 1))
      else next)"
  by pat_completeness auto
termination
  by (relation "measure (\<lambda>(list, arg, next, i). length list - i)") auto

definition emit ::
  "('a \<Rightarrow> 'r handler) list \<Rightarrow> 'a \<Rightarrow> ('u, 'c, 'r) operation \<Rightarrow> ('u, 'c, 'r) operation" where
  "emit handlers arg next = (let list = handlers in emitNext list arg next 0)"

definition onSendActivities ::
  "(('u, 'c) Activity list \<Rightarrow> ResourceResponse list handler) \<Rightarrow> ('u, 'c) TurnContext
     \<Rightarrow> ('u, 'c) TurnContext" where
  "onSendActivities handler ctx =
     ctx\<lparr> onSendActivities_handlers := onSendActivities_handlers ctx @ [handler] \<rparr>"

definition onUpdateActivity ::
  "(('u, 'c) Activity \<Rightarrow> unit handler) \<Rightarrow> ('u, 'c) TurnContext \<Rightarrow> ('u, 'c) TurnContext" where
  "onUpdateActivity handler ctx =
     ctx\<lparr> onUpdateActivity_handlers := onUpdateActivity_handlers ctx @ [handler] \<rparr>"

definition onDeleteActivity ::
  "(('u, 'c) ConversationReference \<Rightarrow> unit handler) \<Rightarrow> ('u, 'c) TurnContext
     \<Rightarrow> ('u, 'c) TurnContext" where
  "onDeleteActivity handler ctx =
     ctx\<lparr> onDeleteActivity_handlers := onDeleteActivity_handlers ctx @ [handler] \<rparr>"

text \<open>
  \<^verbatim>\<open>sendActivities\<close>: every activity is copied (\<^verbatim>\<open>Object.assign({}, a)\<close>), addressed with
  the reference of the received activity, and typed \<^verbatim>\<open>message\<close> when it has no type.
  The last continuation calls the adapter and, when that resolves, assigns
  \<^verbatim>\<open>this.responded = true\<close>.
\<close>

definition stamp :: "('u, 'c) ConversationReference \<Rightarrow> ('u, 'c) Activity \<Rightarrow> ('u, 'c) Activity" where
  "stamp ref a =
     (let o' = applyConversationReference a ref False
      in if \<not> truthy (a_type o') then o'\<lparr> a_type := Some ''message'' \<rparr> else o')"

definition send_transport :: "('u, 'c) Activity list \<Rightarrow> ('u, 'c, ResourceResponse list) operation" where
  "send_transport output ctx =
     (case adapter_sendActivities (adapter ctx) output of
        Inl e \<Rightarrow> (Inl e, record_event (SendActivitiesCall output False) ctx)
      | Inr responses \<Rightarrow>
          (case set_responded True (record_event (SendActivitiesCall output True) ctx) of
             (Inl e, ctx') \<Rightarrow> (Inl e, ctx')
           | (Inr _, ctx') \<Rightarrow> (Inr responses, ctx')))"

definition sendActivities ::
  "('u, 'c) Activity list \<Rightarrow> ('u, 'c, ResourceResponse list) operation" where
  "sendActivities activities ctx =
     (let ref = getConversationReference (activity ctx);
          output = map (stamp ref) activities
      in emit (onSendActivities_handlers ctx) output (send_transport output) ctx)"

definition empty_activity :: "('u, 'c) Activity" where
  "empty_activity =
     \<lparr> a_type = None, a_id = None, a_replyToId = None, a_name = None, a_text = None,
       a_locale = None, a_value = None, a_channelId = None, a_serviceUrl = None,
       a_from = None, a_recipient = None, a_conversation = None, a_attachments = None,
       a_speak = None, a_inputHint = None \<rparr>"

definition sendActivity ::
  "string + ('u, 'c) Activity \<Rightarrow> string option \<Rightarrow> string option
     \<Rightarrow> ('u, 'c, ResourceResponse option) operation" where
  "sendActivity activityOrText speak inputHint ctx =
     (let a = (case activityOrText of
                 Inl t \<Rightarrow>
                   (let a0 = empty_activity\<lparr> a_text := Some t \<rparr>;
                        a1 = (if truthy speak then a0\<lparr> a_speak := speak \<rparr> else a0)
                    in if truthy inputHint then a1\<lparr> a_inputHint := inputHint \<rparr> else a1)
               | Inr act \<Rightarrow> act);
          (outcome, ctx') = sendActivities [a] ctx
      in (case outcome of
            Inl e \<Rightarrow> Inl e
          | Inr responses \<Rightarrow> Inr (case responses of [] \<Rightarrow> None | r # _ \<Rightarrow> Some r),
          ctx'))"

definition update_transport :: "('u, 'c) Activity \<Rightarrow> ('u, 'c, unit) operation" where
  "update_transport a ctx =
     (case adapter_updateActivity (adapter ctx) a of
        Inl e \<Rightarrow> (Inl e, record_event (UpdateActivityCall a False) ctx)
      | Inr u \<Rightarrow> (Inr u, record_event (UpdateActivityCall a True) ctx))"

definition updateActivity :: "('u, 'c) Activity \<Rightarrow> ('u, 'c, unit) operation" where
  "updateActivity a ctx = emit (onUpdateActivity_handlers ctx) a (update_transport a) ctx"

definition delete_transport :: "('u, 'c) ConversationReference \<Rightarrow> ('u, 'c, unit) operation" where
  "delete_transport reference ctx =
     (case adapter_deleteActivity (adapter ctx) reference of
        Inl e \<Rightarrow> (Inl e, record_event (DeleteActivityCall reference False) ctx)
      | Inr u \<Rightarrow> (Inr u, record_event (DeleteActivityCall reference True) ctx))"

definition deleteActivity ::
  "string + ('u, 'c) ConversationReference \<Rightarrow> ('u, 'c, unit) operation" where
  "deleteActivity idOrReference ctx =
     (let reference = (case idOrReference of
                         Inl i \<Rightarrow> (getConversationReference (activity ctx))\<lparr> activityId := Some i \<rparr>
                       | Inr r \<Rightarrow> r)
      in emit (onDeleteActivity_handlers ctx) reference (delete_transport reference) ctx)"

section \<open>Activities and references as objects\<close>

text \<open>
  Whether a function changes its arguments, and whether two properties hold the same
  object, is not visible on values. Here activities, references and account objects
  live in a heap: an address is an index into the list of objects of its kind, a new
  object is appended, and an assignment to a property of an object replaces the
  object at its address. An activity or reference on the heap holds the addresses of
  its account objects, whose contents \<open>'o\<close> stay opaque.
\<close>

type_synonym addr = nat

record 'o heap =
  activities :: "(addr, addr) Activity list"
  references :: "(addr, addr) ConversationReference list"
  objects :: "'o list"

definition lookup :: "'a list \<Rightarrow> addr \<Rightarrow> 'a option" where
  "lookup xs p = (if p < length xs then Some (xs ! p) else None)"

text \<open>
  Modelled from the spec: \<^verbatim>\<open>shallowCopy\<close> on the heap. The copy of an object is a new
  object with the same contents; \<^verbatim>\<open>undefined\<close> is returned as it is. The result is \<open>None\<close>
  only for an address that holds no object, which a JavaScript value never is.
\<close>

definition shallowCopy_h :: "addr option \<Rightarrow> 'o heap \<Rightarrow> (addr option \<times> 'o heap) option" where
  "shallowCopy_h v h =
     (case v of
        None \<Rightarrow> Some (None, h)
      | Some p \<Rightarrow>
          (case lookup (objects h) p of
             None \<Rightarrow> None
           | Some obj \<Rightarrow> Some (Some (length (objects h)), h\<lparr> objects := objects h @ [obj] \<rparr>)))"

text \<open>
  \<^verbatim>\<open>getConversationReference\<close> on the heap: the object literal is a new reference
  object, and its properties are evaluated in the order they are written.
\<close>

definition getConversationReference_h :: "addr \<Rightarrow> 'o heap \<Rightarrow> (addr \<times> 'o heap) option" where
  "getConversationReference_h pa h =
     (case lookup (activities h) pa of
        None \<Rightarrow> None
      | Some act \<Rightarrow>
          (case shallowCopy_h (a_from act) h of
             None \<Rightarrow> None
           | Some (u, h1) \<Rightarrow>
               (case shallowCopy_h (a_recipient act) h1 of
                  None \<Rightarrow> None
                | Some (b, h2) \<Rightarrow>
                    (case shallowCopy_h (a_conversation act) h2 of
                       None \<Rightarrow> None
                     | Some (c, h3) \<Rightarrow>
                         Some (length (references h3),
                               h3\<lparr> references := references h3 @
                                     [\<lparr> activityId = a_id act, user = u, bot' = b,
                                        conversation = c, channelId = a_channelId act,
                                        serviceUrl = a_serviceUrl act \<rparr>] \<rparr>)))))"

text \<open>
  \<^verbatim>\<open>applyConversationReference\<close> on the heap: the assignments go to the activity object
  that was passed in, and that same object is returned.
\<close>

definition applyConversationReference_h ::
  "addr \<Rightarrow> addr \<Rightarrow> bool \<Rightarrow> 'o heap \<Rightarrow> (addr \<times> 'o heap) option" where
  "applyConversationReference_h pa pr isIncoming h =
     (case lookup (activities h) pa of
        None \<Rightarrow> None
      | Some act \<Rightarrow>
          (case lookup (references h) pr of
             None \<Rightarrow> None
           | Some ref \<Rightarrow>
               Some (pa, h\<lparr> activities :=
                             (activities h)[pa := applyConversationReference act ref isIncoming] \<rparr>)))"

text \<open>
  \<open>is_copy h h' old new\<close>: the property value \<open>new\<close>, read in \<open>h'\<close>, is a copy of the
  property value \<open>old\<close> of \<open>h\<close>: both undefined, or \<open>new\<close> an object that did not exist
  in \<open>h\<close> with the contents \<open>old\<close> had there.
\<close>

definition is_copy :: "'o heap \<Rightarrow> 'o heap \<Rightarrow> addr option \<Rightarrow> addr option \<Rightarrow> bool" where
  "is_copy h h' old new =
     (case old of
        None \<Rightarrow> new = None
      | Some p \<Rightarrow>
          (case new of
             None \<Rightarrow> False
           | Some q \<Rightarrow>
               p < length (objects h) \<and> length (objects h) \<le> q \<and>
               lookup (objects h') q = lookup (objects h) p))"

text \<open>The value of an activity or reference of the heap: addresses replaced by contents.\<close>

definition contents :: "'o heap \<Rightarrow> addr option \<Rightarrow> 'o option" where
  "contents h v = (case v of None \<Rightarrow> None | Some p \<Rightarrow> lookup (objects h) p)"

definition reference_value ::
  "'o heap \<Rightarrow> (addr, addr) ConversationReference \<Rightarrow> ('o, 'o) ConversationReference" where
  "reference_value h r =
     \<lparr> activityId = activityId r, user = contents h (user r), bot' = contents h (bot' r),
       conversation = contents h (conversation r), channelId = channelId r,
       serviceUrl = serviceUrl r \<rparr>"

definition activity_value :: "'o heap \<Rightarrow> (addr, addr) Activity \<Rightarrow> ('o, 'o) Activity" where
  "activity_value h a =
     \<lparr> a_type = a_type a, a_id = a_id a, a_replyToId = a_replyToId a, a_name = a_name a,
       a_text = a_text a, a_locale = a_locale a, a_value = a_value a,
       a_channelId = a_channelId a, a_serviceUrl = a_serviceUrl a,
       a_from = contents h (a_from a), a_recipient = contents h (a_recipient a),
       a_conversation = contents h (a_conversation a), a_attachments = a_attachments a,
       a_speak = a_speak a, a_inputHint = a_inputHint a \<rparr>"

text \<open>
  A JavaScript property holds an object or nothing: in a well-formed heap every address
  held by an activity or a reference is the address of an object.
\<close>

definition valid_addr :: "'o heap \<Rightarrow> addr option \<Rightarrow> bool" where
  "valid_addr h v = (case v of None \<Rightarrow> True | Some p \<Rightarrow> p < length (objects h))"

definition wf_heap :: "'o heap \<Rightarrow> bool" where
  "wf_heap h \<longleftrightarrow>
     list_all (\<lambda>a. valid_addr h (a_from a) \<and> valid_addr h (a_recipient a) \<and>
                   valid_addr h (a_conversation a)) (activities h) \<and>
     list_all (\<lambda>r. valid_addr h (user r) \<and> valid_addr h (bot' r) \<and>
                   valid_addr h (conversation r)) (references h)"

section \<open>Prompts\<close>

text \<open>
  A validator is \<^verbatim>\<open>(context, value) => Promiseable<O | undefined>\<close>. Without a validator
  \<open>recognize\<close> returns the recognized value itself (\<^verbatim>\<open>value as any\<close>), so \<open>O\<close> is taken at
  its default, the type of the recognized value.
\<close>

type_synonym ('u, 'c, 'v) validator = "'v option \<Rightarrow> ('u, 'c, 'v option) operation"

definition validate ::
  "('u, 'c, 'v) validator option \<Rightarrow> 'v option \<Rightarrow> ('u, 'c, 'v option) operation" where
  "validate validator v ctx = (case validator of None \<Rightarrow> (Inr v, ctx) | Some f \<Rightarrow> f v ctx)"

subsection \<open>The OAuth prompt\<close>

record OAuthPromptSettings =
  connectionName :: string
  title :: string
  cardText :: "string option"

text \<open>
  Modelled from the spec: \<^verbatim>\<open>CardFactory.oauthCard\<close>, \<^verbatim>\<open>CardFactory.contentTypes.oauthCard\<close>
  and \<^verbatim>\<open>MessageFactory.attachment\<close> (botbuilder-core, not among the sources) build the
  "sign-in affordance": an attachment whose content type marks it as an OAuth card, in
  a message activity that holds just that attachment.
\<close>

definition oauthCard_contentType :: string where
  "oauthCard_contentType = ''application/vnd.microsoft.card.oauth''"

definition CardFactory_oauthCard :: "string \<Rightarrow> string \<Rightarrow> string option \<Rightarrow> Attachment" where
  "CardFactory_oauthCard cn t txt =
     \<lparr> contentType = Some oauthCard_contentType, content = OAuthCard cn t txt \<rparr>"

definition MessageFactory_attachment :: "Attachment \<Rightarrow> ('u, 'c) Activity" where
  "MessageFactory_attachment attachment =
     empty_activity\<lparr> a_type := Some ''message'', a_attachments := Some [attachment] \<rparr>"

text \<open>
  Modelled from the spec: \<^verbatim>\<open>sendPrompt\<close> (module ./internal of botbuilder-prompts, not
  among the sources) renders the prompt: it sends the activity with the context's
  \<open>sendActivity\<close>. The prompts below take the function as a parameter.
\<close>

definition sendPrompt :: "('u, 'c) Activity \<Rightarrow> ('u, 'c, unit) operation" where
  "sendPrompt prompt ctx =
     (let (outcome, ctx') = sendActivity (Inr prompt) None None ctx
      in (case outcome of Inl e \<Rightarrow> Inl e | Inr _ \<Rightarrow> Inr (), ctx'))"

text \<open>
  The body of \<open>prompt\<close> stands in \<^verbatim>\<open>try { ... } catch (err) { return Promise.reject(err) }\<close>:
  each \<^verbatim>\<open>throw\<close> inside ends as a rejected promise, and \<open>prompt\<close> itself throws nothing.
\<close>

definition OAuthPrompt_prompt ::
  "OAuthPromptSettings \<Rightarrow> (('u, 'c) Activity \<Rightarrow> ('u, 'c, unit) operation)
     \<Rightarrow> ('u, 'c) Activity option \<Rightarrow> ('u, 'c) TurnContext
     \<Rightarrow> ((error + unit) \<times> ('u, 'c) TurnContext) call" where
  "OAuthPrompt_prompt settings sendPrompt' prompt ctx =
     Returns
       (case adapter_getUserToken (adapter ctx) of
          None \<Rightarrow> (Inl UnsupportedAdapter, ctx)
        | Some _ \<Rightarrow>
            (case prompt of
               None \<Rightarrow>
                 sendPrompt'
                   (MessageFactory_attachment
                      (CardFactory_oauthCard (connectionName settings) (title settings)
                         (cardText settings))) ctx
             | Some p \<Rightarrow>
                 (case a_attachments p of
                    None \<Rightarrow> (Inl MalformedPrompt, ctx)
                  | Some attachments \<Rightarrow>
                      (let found = filter (\<lambda>a. contentType a = Some oauthCard_contentType)
                                     attachments
                       in if length found = 0 then (Inl MalformedPrompt, ctx)
                          else sendPrompt' p ctx))))"

definition isTokenResponseEvent :: "('u, 'c) TurnContext \<Rightarrow> bool" where
  "isTokenResponseEvent ctx =
     (let a = activity ctx
      in a_type a = Some ''event'' \<and> a_name a = Some ''tokens/response'')"

definition is_digit :: "char \<Rightarrow> bool" where
  "is_digit c = (c \<in> set ''0123456789'')"

text \<open>
  \<^verbatim>\<open>/(\d{6})/.exec(s)\<close>, as far as the code reads it: the first group of the leftmost
  match, that is the six characters at the first position where six digits stand in a
  row, or \<open>None\<close> when the expression does not match. \<^verbatim>\<open>exec\<close> converts its argument to a
  string, so a missing text is searched as the word "undefined".
\<close>

fun exec_six_digits :: "string \<Rightarrow> string option" where
  "exec_six_digits [] = None"
| "exec_six_digits (c # cs) =
     (if 6 \<le> length (c # cs) \<and> list_all is_digit (take 6 (c # cs))
      then Some (take 6 (c # cs))
      else exec_six_digits cs)"

definition to_String :: "string option \<Rightarrow> string" where
  "to_String v = (case v of None \<Rightarrow> ''undefined'' | Some s \<Rightarrow> s)"

text \<open>
  \<open>recognize\<close> has no \<^verbatim>\<open>try\<close>: it throws when the adapter cannot retrieve tokens, where
  \<open>prompt\<close> returns a rejected promise. The exchange of the code is the adapter's
  \<^verbatim>\<open>getUserToken(context, connectionName, code)\<close>, recorded in the trace.
\<close>

definition OAuthPrompt_recognize ::
  "OAuthPromptSettings \<Rightarrow> ('u, 'c, TokenResponse) validator option
     \<Rightarrow> ('u, 'c) TurnContext
     \<Rightarrow> ((error + TokenResponse option) \<times> ('u, 'c) TurnContext) call" where
  "OAuthPrompt_recognize settings validator ctx =
     (case adapter_getUserToken (adapter ctx) of
        None \<Rightarrow> Throws UnsupportedAdapter
      | Some getUserToken \<Rightarrow>
          Returns
            (let (v, ctx1) =
                   (if isTokenResponseEvent ctx then (Inr (a_value (activity ctx)), ctx)
                    else if a_type (activity ctx) = Some ''message'' then
                      (case exec_six_digits (to_String (a_text (activity ctx))) of
                         Some code \<Rightarrow>
                           (getUserToken (connectionName settings) (Some code),
                            record_event
                              (GetUserTokenCall (connectionName settings) (Some code)) ctx)
                       | None \<Rightarrow> (Inr None, ctx))
                    else (Inr None, ctx))
             in case v of
                  Inl e \<Rightarrow> (Inl e, ctx1)
                | Inr token \<Rightarrow> validate validator token ctx1))"

subsection \<open>The datetime prompt\<close>

record FoundDatetime =
  timex :: string
  fd_type :: string
  fd_value :: string

record Resolution =
  res_values :: "FoundDatetime list option"

record ModelResult =
  mr_text :: string
  mr_typeName :: string
  resolution :: "Resolution option"

text \<open>\<^verbatim>\<open>x || d\<close> for an optional string: \<open>x\<close> when it is defined and not empty, else \<open>d\<close>.\<close>

definition or_else :: "string option \<Rightarrow> string \<Rightarrow> string" where
  "or_else x d = (case x of None \<Rightarrow> d | Some s \<Rightarrow> if s = [] then d else s)"

text \<open>
  The recognizer \<^verbatim>\<open>Recognizers.recognizeDateTime(utterance, locale)\<close> is a library
  function, taken as a parameter. The constructor of the context always stores an
  activity, so the \<^verbatim>\<open>context.activity || {}\<close> of the source is the activity.
\<close>

definition DatetimePrompt_recognize ::
  "('u, 'c, FoundDatetime list) validator option \<Rightarrow> string option
     \<Rightarrow> (string \<Rightarrow> string \<Rightarrow> ModelResult list)
     \<Rightarrow> ('u, 'c, FoundDatetime list option) operation" where
  "DatetimePrompt_recognize validator defaultLocale recognizeDateTime ctx =
     (let request = activity ctx;
          utterance = or_else (a_text request) [];
          locale = or_else (a_locale request) (or_else defaultLocale ''en-us'');
          results = recognizeDateTime utterance locale;
          vals = (case results of
                    [] \<Rightarrow> None
                  | r # _ \<Rightarrow> (case resolution r of None \<Rightarrow> None | Some res \<Rightarrow> res_values res))
      in validate validator vals ctx)"

section \<open>Blob storage\<close>

subsection \<open>Keys\<close>

text \<open>
  A key is the UTF-8 text of the JavaScript string, so every character that
  \<^verbatim>\<open>querystring.escape\<close> escapes is escaped byte by byte and the slash is the byte \<open>/\<close>.
\<close>

fun split :: "char \<Rightarrow> string \<Rightarrow> string list" where
  "split sep [] = [[]]"
| "split sep (c # cs) =
     (case split sep cs of
        [] \<Rightarrow> (if c = sep then [[], []] else [[c]])
      | s # ss \<Rightarrow> (if c = sep then [] # s # ss else (c # s) # ss))"

text \<open>\<^verbatim>\<open>xs.splice(start)\<close>: what it removes and returns, and what it leaves in \<open>xs\<close>.\<close>

definition splice :: "nat \<Rightarrow> 'a list \<Rightarrow> 'a list \<times> 'a list" where
  "splice start xs = (drop start xs, take start xs)"

text \<open>\<^verbatim>\<open>xs.reduce((acc, curr, index) => f, init)\<close>.\<close>

fun reduce :: "('b \<Rightarrow> 'a \<Rightarrow> nat \<Rightarrow> 'b) \<Rightarrow> nat \<Rightarrow> 'a list \<Rightarrow> 'b \<Rightarrow> 'b" where
  "reduce f i [] acc = acc"
| "reduce f i (x # xs) acc = reduce f (i + 1) xs (f acc x i)"

text \<open>
  \<^verbatim>\<open>querystring.escape\<close> of Node.js: letters, digits and \<^verbatim>\<open>- _ . ! ~ * ' ( )\<close> stay, every
  other byte becomes \<open>%\<close> and its two upper-case hexadecimal digits.
\<close>

definition unreserved :: "char \<Rightarrow> bool" where
  "unreserved c =
     (c \<in> set ''ABCDEFGHIJKLMNOPQRSTUVWXYZabcdefghijklmnopqrstuvwxyz0123456789-_.!~*'()'')"

definition hex_digit :: "nat \<Rightarrow> char" where
  "hex_digit n = ''0123456789ABCDEF'' ! n"

definition escape_char :: "char \<Rightarrow> string" where
  "escape_char c =
     (if unreserved c then [c]
      else [CHR ''%'', hex_digit (of_char c div 16), hex_digit (of_char c mod 16)])"

definition escape :: "string \<Rightarrow> string" where
  "escape s = concat (map escape_char s)"

definition sanitizeKey :: "string \<Rightarrow> error + string" where
  "sanitizeKey key =
     (if key = [] then Inl KeyRequired
      else
        (let segments = split CHR ''/'' key;
             (removed, segments') = splice 0 segments;
             base = hd removed;
             validKey = reduce (\<lambda>acc curr index. acc @ (if index < 255 then ''/'' else []) @ curr)
                          0 segments' base
         in Inr (take 1024 (escape validKey))))"

subsection \<open>Reading\<close>

text \<open>
  A promise is taken at its end: fulfilled with a value, rejected with an error, or
  never settled.
\<close>

datatype 'a promise = Fulfilled 'a | Rejected error | Pending

definition then_promise :: "'a promise \<Rightarrow> ('a \<Rightarrow> 'b promise) \<Rightarrow> 'b promise" where
  "then_promise p f =
     (case p of Fulfilled v \<Rightarrow> f v | Rejected e \<Rightarrow> Rejected e | Pending \<Rightarrow> Pending)"

fun Promise_all :: "'a promise list \<Rightarrow> 'a list promise" where
  "Promise_all [] = Fulfilled []"
| "Promise_all (p # ps) =
     (case p of
        Rejected e \<Rightarrow> Rejected e
      | Fulfilled v \<Rightarrow>
          (case Promise_all ps of
             Fulfilled vs \<Rightarrow> Fulfilled (v # vs)
           | Rejected e \<Rightarrow> Rejected e
           | Pending \<Rightarrow> Pending)
      | Pending \<Rightarrow>
          (case Promise_all ps of Rejected e \<Rightarrow> Rejected e | _ \<Rightarrow> Pending))"

record 'd StoreItem =
  eTag :: "string option"
  item_data :: 'd

record 'd StoredDocument =
  doc_id :: string
  realId :: string
  document :: "'d StoreItem option"

record BlobMetadata =
  blob_container :: string
  blob_name :: string
  etag :: string

record ContainerResult =
  container_name :: string

text \<open>
  The promise wrappers around the Azure blob service (\<^verbatim>\<open>this.client\<close>), each taken as
  the function from its arguments to the end of the promise it returns.
\<close>

record BlobService =
  createContainerIfNotExistsAsync :: "string \<Rightarrow> ContainerResult promise"
  getBlobMetadataAsync :: "string \<Rightarrow> string \<Rightarrow> BlobMetadata promise"
  getBlobToTextAsync :: "string \<Rightarrow> string \<Rightarrow> string promise"

record BlobStorage =
  containerName :: string
  client :: BlobService

text \<open>
  \<^verbatim>\<open>checkedCollections\<close> is a dictionary of the module, here a list of entries: the
  promise of the container, by container name, made on first use and kept.
\<close>

type_synonym checkedCollections = "(string \<times> ContainerResult promise) list"

definition ensureContainerExists ::
  "BlobStorage \<Rightarrow> checkedCollections \<Rightarrow> ContainerResult promise \<times> checkedCollections" where
  "ensureContainerExists this cc =
     (let key = containerName this
      in case map_of cc key of
           None \<Rightarrow>
             (let p = createContainerIfNotExistsAsync (client this) key
              in (p, (key, p) # cc))
         | Some p \<Rightarrow> (p, cc))"

text \<open>
  The promise made for one key. Both error callbacks resolve it with \<^verbatim>\<open>null\<close>. An
  exception inside the innermost callback (the text is not JSON, or the parsed object
  has no \<^verbatim>\<open>document\<close>) rejects only the promise of that \<^verbatim>\<open>then\<close>, which nobody reads:
  the promise made for the key is then never resolved. \<^verbatim>\<open>JSON.parse\<close> is a parameter.
\<close>

definition read_blob ::
  "(string \<Rightarrow> error + 'd StoredDocument) \<Rightarrow> BlobStorage \<Rightarrow> string \<Rightarrow> string
     \<Rightarrow> 'd StoredDocument option promise" where
  "read_blob JSON_parse this container key =
     (case getBlobMetadataAsync (client this) container key of
        Rejected err \<Rightarrow> Fulfilled None
      | Pending \<Rightarrow> Pending
      | Fulfilled blobMetadata \<Rightarrow>
          (case getBlobToTextAsync (client this) (blob_container blobMetadata)
                  (blob_name blobMetadata) of
             Rejected err \<Rightarrow> Fulfilled None
           | Pending \<Rightarrow> Pending
           | Fulfilled result \<Rightarrow>
               (case JSON_parse result of
                  Inl e \<Rightarrow> Pending
                | Inr doc \<Rightarrow>
                    (case document doc of
                       None \<Rightarrow> Pending
                     | Some item \<Rightarrow>
                         Fulfilled
                           (Some (doc\<lparr> document :=
                                         Some (item\<lparr> eTag := Some (etag blobMetadata) \<rparr>) \<rparr>))))))"

fun sanitize_all :: "string list \<Rightarrow> error + string list" where
  "sanitize_all [] = Inr []"
| "sanitize_all (k # ks) =
     (case sanitizeKey k of
        Inl e \<Rightarrow> Inl e
      | Inr s \<Rightarrow> (case sanitize_all ks of Inl e \<Rightarrow> Inl e | Inr ss \<Rightarrow> Inr (s # ss)))"

definition collect ::
  "'d StoredDocument option list \<Rightarrow> (string \<rightharpoonup> 'd StoreItem option)" where
  "collect items =
     foldl (\<lambda>storeItems x. case x of None \<Rightarrow> storeItems
                              | Some item \<Rightarrow> storeItems(realId item \<mapsto> document item))
       Map.empty items"

text \<open>
  \<open>read\<close> throws for missing keys (and would for a key that \<open>sanitizeKey\<close> refuses;
  the filter before it leaves none), and returns a promise otherwise. The promise made inside is resolved in one place only,
  under the test \<^verbatim>\<open>items !== null && items.length > 0\<close>, and rejected nowhere.
\<close>

definition read ::
  "(string \<Rightarrow> error + 'd StoredDocument) \<Rightarrow> BlobStorage \<Rightarrow> string list option
     \<Rightarrow> checkedCollections
     \<Rightarrow> (string \<rightharpoonup> 'd StoreItem option) promise call \<times> checkedCollections" where
  "read JSON_parse this keys cc =
     (case keys of
        None \<Rightarrow> (Throws KeysRequired, cc)
      | Some ks \<Rightarrow>
          (case sanitize_all (filter (\<lambda>k. k \<noteq> []) ks) of
             Inl e \<Rightarrow> (Throws e, cc)
           | Inr sanitizedKeys \<Rightarrow>
               (let (ensured, cc') = ensureContainerExists this cc
                in (Returns
                      (then_promise ensured
                         (\<lambda>container.
                            case Promise_all
                                   (map (read_blob JSON_parse this (container_name container))
                                      sanitizedKeys) of
                              Fulfilled items \<Rightarrow>
                                (if length items > 0 then Fulfilled (collect items)
                                 else Pending)
                            | Rejected e \<Rightarrow> Pending
                            | Pending \<Rightarrow> Pending)),
                    cc'))))"

section \<open>Notions of the claims and example inputs\<close>

text \<open>
  The handlers of the claims. \<open>logging before after\<close> has an effect, awaits
  \<open>next()\<close>, and when that resolves has a second effect and resolves with the same
  result; when \<open>next()\<close> rejects, the exception passes through it. A handler never
  calls \<open>next\<close> when no path through it does.
\<close>

definition logging :: "string \<Rightarrow> string \<Rightarrow> 'a \<Rightarrow> 'r handler" where
  "logging before after =
     (\<lambda>arg. Effect before (CallNext (\<lambda>r. case r of
                                             Inl e \<Rightarrow> Reject e
                                           | Inr v \<Rightarrow> Effect after (Resolve v))))"

inductive never_calls_next :: "'r handler \<Rightarrow> bool" where
  "never_calls_next (Resolve v)"
| "never_calls_next (Reject e)"
| "never_calls_next h \<Longrightarrow> never_calls_next (Effect l h)"
| "never_calls_next h \<Longrightarrow> never_calls_next (SetResponded v h)"
| "(\<And>b. never_calls_next (k b)) \<Longrightarrow> never_calls_next (GetResponded k)"

text \<open>
  Reading the trace: the calls of the adapter's \<open>sendActivities\<close> that resolved, and
  the calls of the adapter of any kind.
\<close>

fun is_send_ok :: "('u, 'c) event \<Rightarrow> bool" where
  "is_send_ok (SendActivitiesCall acts ok) = ok"
| "is_send_ok _ = False"

fun is_adapter_call :: "('u, 'c) event \<Rightarrow> bool" where
  "is_adapter_call (HandlerEffect l) = False"
| "is_adapter_call _ = True"

definition sends_ok :: "('u, 'c) TurnContext \<Rightarrow> nat" where
  "sends_ok ctx = length (filter is_send_ok (trace ctx))"

text \<open>
  What every operation keeps between the context before and the context after: the
  flag stays set, the resolved sends only grow, and a resolved send sets the flag.
\<close>

definition flag_step :: "('u, 'c) TurnContext \<Rightarrow> ('u, 'c) TurnContext \<Rightarrow> bool" where
  "flag_step c c' \<longleftrightarrow>
     (responded c \<longrightarrow> responded c') \<and> sends_ok c \<le> sends_ok c' \<and>
     (sends_ok c < sends_ok c' \<longrightarrow> responded c')"

text \<open>The operations of a context, and the context after one of them.\<close>

datatype ('u, 'c) context_op =
    AssignResponded bool
  | SendActivities "('u, 'c) Activity list"
  | SendActivity "string + ('u, 'c) Activity" "string option" "string option"
  | UpdateActivity "('u, 'c) Activity"
  | DeleteActivity "string + ('u, 'c) ConversationReference"
  | OnSendActivities "('u, 'c) Activity list \<Rightarrow> ResourceResponse list handler"
  | OnUpdateActivity "('u, 'c) Activity \<Rightarrow> unit handler"
  | OnDeleteActivity "('u, 'c) ConversationReference \<Rightarrow> unit handler"

fun after_op :: "('u, 'c) TurnContext \<Rightarrow> ('u, 'c) context_op \<Rightarrow> ('u, 'c) TurnContext" where
  "after_op ctx (AssignResponded v) = snd (set_responded v ctx)"
| "after_op ctx (SendActivities acts) = snd (sendActivities acts ctx)"
| "after_op ctx (SendActivity a speak hint) = snd (sendActivity a speak hint ctx)"
| "after_op ctx (UpdateActivity a) = snd (updateActivity a ctx)"
| "after_op ctx (DeleteActivity r) = snd (deleteActivity r ctx)"
| "after_op ctx (OnSendActivities h) = onSendActivities h ctx"
| "after_op ctx (OnUpdateActivity h) = onUpdateActivity h ctx"
| "after_op ctx (OnDeleteActivity h) = onDeleteActivity h ctx"

text \<open>
  The digit runs of a text, in the words of the claim: the maximal stretches of
  consecutive digits, from left to right.
\<close>

fun runs_from :: "string \<Rightarrow> string \<Rightarrow> string list" where
  "runs_from cur [] = (if cur = [] then [] else [cur])"
| "runs_from cur (c # cs) =
     (if is_digit c then runs_from (cur @ [c]) cs
      else if cur = [] then runs_from [] cs
      else cur # runs_from [] cs)"

definition digit_runs :: "string \<Rightarrow> string list" where
  "digit_runs s = runs_from [] s"

text \<open>
  Six digits in a row stand at position \<open>i\<close> of a text.
\<close>

definition six_digits_at :: "string \<Rightarrow> nat \<Rightarrow> bool" where
  "six_digits_at s i \<longleftrightarrow> i + 6 \<le> length s \<and> list_all is_digit (take 6 (drop i s))"

text \<open>A prompt activity contains an OAuthCard attachment.\<close>

definition has_OAuthCard :: "('u, 'c) Activity \<Rightarrow> bool" where
  "has_OAuthCard p =
     (case a_attachments p of
        None \<Rightarrow> False
      | Some attachments \<Rightarrow>
          list_ex (\<lambda>a. contentType a = Some oauthCard_contentType) attachments)"

text \<open>
  The datetime prompt in the words of the spec: the locale is the activity's, else the
  configured default, else the fixed fallback; the value is the resolution values of
  the first candidate, absent when there is no candidate or it has no resolution.
\<close>

definition spec_locale :: "string option \<Rightarrow> string option \<Rightarrow> string" where
  "spec_locale activityLocale defaultLocale =
     (if truthy activityLocale then the activityLocale
      else if truthy defaultLocale then the defaultLocale
      else ''en-us'')"

definition spec_first_values :: "ModelResult list \<Rightarrow> FoundDatetime list option" where
  "spec_first_values results =
     (if results = [] then None
      else (case resolution (hd results) of None \<Rightarrow> None | Some res \<Rightarrow> res_values res))"

text \<open>
  The characters of a sanitized key: what \<^verbatim>\<open>querystring.escape\<close> leaves unescaped, and
  the percent sign of an escape.
\<close>

definition safe_char :: "char \<Rightarrow> bool" where
  "safe_char c \<longleftrightarrow> unreserved c \<or> c = CHR ''%''"

text \<open>A handler that resolves with no responses and never calls \<open>next\<close>.\<close>

definition swallow :: "('u, 'c) Activity list \<Rightarrow> ResourceResponse list handler" where
  "swallow arg = Resolve []"

subsection \<open>Example inputs\<close>

definition example_adapter :: "(string, string) BotAdapter" where
  "example_adapter =
     \<lparr> adapter_sendActivities = (\<lambda>acts. Inr (map (\<lambda>a. ResourceResponse ''sent'') acts)),
       adapter_updateActivity = (\<lambda>a. Inr ()),
       adapter_deleteActivity = (\<lambda>r. Inr ()),
       adapter_getUserToken = None,
       adapter_signOutUser = None \<rparr>"

definition example_request :: "(string, string) Activity" where
  "example_request =
     empty_activity\<lparr> a_type := Some ''message'', a_id := Some ''1234'',
       a_text := Some ''hello'', a_channelId := Some ''test'',
       a_serviceUrl := Some ''https://example.org'', a_from := Some ''user-1'',
       a_recipient := Some ''bot-1'', a_conversation := Some ''convo-1'' \<rparr>"

definition example_context :: "(string, string) TurnContext" where
  "example_context = TurnContext_new example_adapter example_request"

definition example_heap :: "string heap" where
  "example_heap =
     \<lparr> activities =
         [empty_activity\<lparr> a_type := Some ''message'', a_id := Some ''1234'',
            a_text := Some ''hello'', a_channelId := Some ''test'',
            a_serviceUrl := Some ''https://example.org'', a_from := Some 0,
            a_recipient := Some 1, a_conversation := Some 2 \<rparr>,
          empty_activity\<lparr> a_text := Some ''reply'' \<rparr>],
       references =
         [\<lparr> activityId = Some ''1234'', user = Some 0, bot' = Some 1,
            conversation = Some 2, channelId = Some ''test'',
            serviceUrl = Some ''https://example.org'' \<rparr>],
       objects = [''user-1'', ''bot-1'', ''convo-1''] \<rparr>"

definition example_token :: TokenResponse where
  "example_token =
     \<lparr> tr_connectionName = ''GitConnection'', tr_token = ''secret'',
       tr_expiration = ''2030-01-01'' \<rparr>"

definition example_settings :: OAuthPromptSettings where
  "example_settings =
     \<lparr> connectionName = ''GitConnection'', title = ''Login To GitHub'', cardText = None \<rparr>"

definition token_adapter :: "(string, string) BotAdapter" where
  "token_adapter =
     example_adapter\<lparr> adapter_getUserToken :=
       Some (\<lambda>cn code. if code = None then Inr None else Inr (Some example_token)) \<rparr>"

definition message_context :: "string \<Rightarrow> (string, string) TurnContext" where
  "message_context t = TurnContext_new token_adapter (example_request\<lparr> a_text := Some t \<rparr>)"

definition example_recognizer :: "string \<Rightarrow> string \<Rightarrow> ModelResult list" where
  "example_recognizer utterance locale' =
     (if utterance = ''tomorrow at 3pm'' \<and> locale' = ''en-us''
      then [\<lparr> mr_text = ''tomorrow at 3pm'', mr_typeName = ''datetimeV2.datetime'',
               resolution = Some \<lparr> res_values =
                 Some [\<lparr> timex = ''2018-03-02T15'', fd_type = ''datetime'',
                          fd_value = ''2018-03-02 15:00:00'' \<rparr>] \<rparr> \<rparr>]
      else [])"

definition example_container :: ContainerResult where
  "example_container = \<lparr> container_name = ''bot-state'' \<rparr>"

definition example_storage :: "ContainerResult promise \<Rightarrow> BlobStorage" where
  "example_storage provisioned =
     \<lparr> containerName = ''bot-state'',
       client = \<lparr> createContainerIfNotExistsAsync = (\<lambda>key. provisioned),
                  getBlobMetadataAsync = (\<lambda>container key. Rejected (Failure ''BlobNotFound'')),
                  getBlobToTextAsync = (\<lambda>container key. Rejected (Failure ''BlobNotFound'')) \<rparr> \<rparr>"

definition failing_storage :: BlobStorage where
  "failing_storage = example_storage (Rejected (Failure ''no network''))"

definition example_parse :: "string \<Rightarrow> error + string StoredDocument" where
  "example_parse s = Inl (Failure ''SyntaxError'')"

section \<open>Properties of the interceptor chain\<close>

lemma emitNext_foldr:
  "emitNext list arg nxt i = foldr (\<lambda>h k. run (h arg) k) (drop i list) nxt"
proof (induction list arg nxt i rule: emitNext.induct)
  case (1 list arg nxt i)
  show ?case
  proof (cases "i < length list")
    case True
    then have "drop i list = (list ! i) # drop (Suc i) list"
      by (simp add: Cons_nth_drop_Suc)
    with True 1 show ?thesis by simp
  next
    case False
    then show ?thesis by simp
  qed
qed

lemma emit_foldr: "emit handlers arg nxt = foldr (\<lambda>h k. run (h arg) k) handlers nxt"
  by (simp add: emit_def emitNext_foldr del: emitNext.simps)

lemma never_calls_next_run:
  "never_calls_next p \<Longrightarrow> run p nxt ctx = run p nxt' ctx"
proof (induction p arbitrary: ctx rule: never_calls_next.induct)
  case (4 h v)
  then show ?case by (auto split: prod.splits sum.splits)
qed auto

lemma flag_step_refl: "flag_step c c"
  by (simp add: flag_step_def)

lemma flag_step_trans: "flag_step a b \<Longrightarrow> flag_step b c \<Longrightarrow> flag_step a c"
  by (auto simp: flag_step_def)

lemma flag_step_effect: "flag_step c (record_event (HandlerEffect l) c)"
  by (simp add: flag_step_def record_event_def sends_ok_def)

lemma flag_step_set_responded: "flag_step c (snd (set_responded v c))"
  by (simp add: flag_step_def set_responded_def sends_ok_def)

lemma run_flag_step:
  assumes nxt: "\<And>c. flag_step c (snd (nxt c))"
  shows "flag_step c (snd (run p nxt c))"
proof (induction p arbitrary: c)
  case (Effect l h)
  have "flag_step c (record_event (HandlerEffect l) c)" by (rule flag_step_effect)
  moreover have "flag_step (record_event (HandlerEffect l) c)
      (snd (run h nxt (record_event (HandlerEffect l) c)))" by (rule Effect.IH)
  ultimately show ?case using flag_step_trans by fastforce
next
  case (SetResponded v h)
  show ?case
  proof (cases "set_responded v c")
    case (Pair r c')
    then have st: "flag_step c c'" using flag_step_set_responded[of c v] by simp
    show ?thesis
    proof (cases r)
      case (Inl e)
      with Pair st show ?thesis by simp
    next
      case (Inr u)
      have "flag_step c' (snd (run h nxt c'))" by (rule SetResponded.IH)
      with Inr Pair st show ?thesis
        using flag_step_trans by fastforce
    qed
  qed
next
  case (GetResponded k)
  then show ?case by simp
next
  case (CallNext k)
  show ?case
  proof (cases "nxt c")
    case (Pair r c')
    then have "flag_step c c'" using nxt[of c] by simp
    moreover have "flag_step c' (snd (run (k r) nxt c'))"
      using CallNext.IH by blast
    ultimately show ?thesis using Pair flag_step_trans by fastforce
  qed
qed (simp_all add: flag_step_refl)

lemma emit_flag_step:
  assumes "\<And>c. flag_step c (snd (nxt c))"
  shows "flag_step c (snd (emit hs arg nxt c))"
  unfolding emit_foldr using assms
  by (induction hs arbitrary: c) (simp_all add: run_flag_step)


lemma never_calls_next_adapter_calls:
  "never_calls_next p \<Longrightarrow>
     filter is_adapter_call (trace (snd (run p nxt ctx))) = filter is_adapter_call (trace ctx)"
proof (induction p arbitrary: ctx rule: never_calls_next.induct)
  case (3 h l)
  then show ?case by (simp add: record_event_def)
next
  case (4 h v)
  then show ?case by (cases v) (simp_all add: set_responded_def)
qed auto

lemma never_calls_next_continuation:
  assumes "never_calls_next p"
  shows "run p nxt = run p nxt'"
  using never_calls_next_run[OF assms] by (intro ext)

lemma emit_short_circuit:
  assumes "\<forall>arg. never_calls_next (S arg)"
  shows "emit (earlier @ S # later) arg nxt = emit (earlier @ [S]) arg nxt'"
proof -
  have "never_calls_next (S arg)" using assms by blast
  then have "run (S arg) (foldr (\<lambda>h k. run (h arg) k) later nxt) = run (S arg) nxt'"
    by (rule never_calls_next_continuation)
  then show ?thesis by (simp add: emit_foldr)
qed

text \<open>
  Claim C1. Handlers run in the order of registration: after registering \<open>H1\<close> and
  then \<open>H2\<close> on any context, \<open>sendActivities\<close> runs the handlers registered earlier
  with the continuation "\<open>H1\<close>, whose \<open>next\<close> is \<open>H2\<close>, whose \<open>next\<close> is the adapter's
  call". When \<open>H1\<close> and \<open>H2\<close> each have an effect before and an effect after awaiting
  \<open>next()\<close> and the adapter's call resolves, that continuation resolves with the
  adapter's responses and extends the trace by exactly H1-before, H2-before, the
  adapter's call, H2-after, H1-after; on a context with no earlier handler this is the
  whole of \<open>sendActivities\<close>. A handler that never invokes \<open>next\<close> cuts the chain:
  the outcome does not depend on the handlers registered after it nor on the adapter,
  no call of the adapter is recorded when it is the first handler, and a first handler
  that resolves with a value of its own makes that value the result and leaves the
  context as it was.
\<close>

theorem interceptor_chain_order:
  fixes ctx :: "('u, 'c) TurnContext" and acts :: "('u, 'c) Activity list"
  defines "output \<equiv> map (stamp (getConversationReference (activity ctx))) acts"
  shows
    "sendActivities acts (onSendActivities H2 (onSendActivities H1 ctx)) =
       emit (onSendActivities_handlers ctx) output
         (run (H1 output) (run (H2 output) (send_transport output)))
         (onSendActivities H2 (onSendActivities H1 ctx)) \<and>
     (adapter_sendActivities (adapter c) output = Inr responses \<longrightarrow>
        run (logging b1 a1 output) (run (logging b2 a2 output) (send_transport output)) c =
          (Inr responses,
           c\<lparr> responded := True,
              trace := trace c @
                [HandlerEffect b1, HandlerEffect b2, SendActivitiesCall output True,
                 HandlerEffect a2, HandlerEffect a1] \<rparr>)) \<and>
     (onSendActivities_handlers ctx = [] \<and>
      adapter_sendActivities (adapter ctx) output = Inr responses \<longrightarrow>
        sendActivities acts
            (onSendActivities (logging b2 a2) (onSendActivities (logging b1 a1) ctx)) =
          (Inr responses,
           ctx\<lparr> responded := True,
                onSendActivities_handlers := [logging b1 a1, logging b2 a2],
                trace := trace ctx @
                  [HandlerEffect b1, HandlerEffect b2, SendActivitiesCall output True,
                   HandlerEffect a2, HandlerEffect a1] \<rparr>)) \<and>
     ((\<forall>arg. never_calls_next (S arg)) \<and>
      onSendActivities_handlers ctx = earlier @ S # later \<longrightarrow>
        sendActivities acts ctx = emit (earlier @ [S]) output nxt ctx) \<and>
     ((\<forall>arg. never_calls_next (S arg)) \<and> onSendActivities_handlers ctx = S # later \<longrightarrow>
        filter is_adapter_call (trace (snd (sendActivities acts ctx))) =
          filter is_adapter_call (trace ctx)) \<and>
     (onSendActivities_handlers ctx = (\<lambda>arg. Resolve own) # later \<longrightarrow>
        sendActivities acts ctx = (Inr own, ctx))"
proof -
  have chain: "sendActivities acts (onSendActivities H2 (onSendActivities H1 ctx)) =
       emit (onSendActivities_handlers ctx) output
         (run (H1 output) (run (H2 output) (send_transport output)))
         (onSendActivities H2 (onSendActivities H1 ctx))"
    by (simp add: sendActivities_def onSendActivities_def emit_foldr output_def Let_def)
  have order: "run (logging b1 a1 output) (run (logging b2 a2 output) (send_transport output)) c =
          (Inr responses,
           c\<lparr> responded := True,
              trace := trace c @
                [HandlerEffect b1, HandlerEffect b2, SendActivitiesCall output True,
                 HandlerEffect a2, HandlerEffect a1] \<rparr>)"
    if "adapter_sendActivities (adapter c) output = Inr responses"
    using that
    by (simp add: logging_def send_transport_def set_responded_def record_event_def)
  have whole: "sendActivities acts
            (onSendActivities (logging b2 a2) (onSendActivities (logging b1 a1) ctx)) =
          (Inr responses,
           ctx\<lparr> responded := True,
                onSendActivities_handlers := [logging b1 a1, logging b2 a2],
                trace := trace ctx @
                  [HandlerEffect b1, HandlerEffect b2, SendActivitiesCall output True,
                   HandlerEffect a2, HandlerEffect a1] \<rparr>)"
    if "onSendActivities_handlers ctx = [] \<and>
        adapter_sendActivities (adapter ctx) output = Inr responses"
    using that
    by (simp add: sendActivities_def onSendActivities_def emit_foldr logging_def
        send_transport_def set_responded_def record_event_def output_def)
  have cut: "sendActivities acts ctx = emit (earlier @ [S]) output nxt ctx"
    if "(\<forall>arg. never_calls_next (S arg)) \<and>
        onSendActivities_handlers ctx = earlier @ S # later"
    using that emit_short_circuit[where S = S and earlier = earlier and later = later
        and arg = "output" and nxt = "send_transport output" and nxt' = nxt]
    by (simp add: sendActivities_def output_def Let_def)
  have quiet: "filter is_adapter_call (trace (snd (sendActivities acts ctx))) =
          filter is_adapter_call (trace ctx)"
    if sc: "(\<forall>arg. never_calls_next (S arg)) \<and> onSendActivities_handlers ctx = S # later"
  proof -
    have "sendActivities acts ctx =
        run (S output) (emit later output (send_transport output)) ctx"
      using sc by (simp add: sendActivities_def emit_foldr output_def Let_def)
    moreover have "never_calls_next (S output)" using sc by blast
    ultimately show ?thesis by (simp add: never_calls_next_adapter_calls)
  qed
  have own: "sendActivities acts ctx = (Inr own, ctx)"
    if "onSendActivities_handlers ctx = (\<lambda>arg. Resolve own) # later"
    using that by (simp add: sendActivities_def emit_foldr Let_def)
  show ?thesis using chain order whole cut quiet own by blast
qed

theorem interceptor_chain_order_witness:
  "onSendActivities_handlers example_context = [] \<and>
   sendActivities [empty_activity\<lparr> a_text := Some ''hi'' \<rparr>]
       (onSendActivities (logging ''H2-before'' ''H2-after'')
          (onSendActivities (logging ''H1-before'' ''H1-after'') example_context)) =
     (Inr [ResourceResponse ''sent''],
      example_context\<lparr> responded := True,
        onSendActivities_handlers :=
          [logging ''H1-before'' ''H1-after'', logging ''H2-before'' ''H2-after''],
        trace :=
          [HandlerEffect ''H1-before'', HandlerEffect ''H2-before'',
           SendActivitiesCall
             [stamp (getConversationReference example_request)
                (empty_activity\<lparr> a_text := Some ''hi'' \<rparr>)] True,
           HandlerEffect ''H2-after'', HandlerEffect ''H1-after''] \<rparr>) \<and>
   (\<forall>arg :: (string, string) Activity list.
      never_calls_next (Effect ''H1-only'' (Resolve ([] :: ResourceResponse list)))) \<and>
   sendActivities [empty_activity\<lparr> a_text := Some ''hi'' \<rparr>]
       (onSendActivities (logging ''H2-before'' ''H2-after'')
          (onSendActivities (\<lambda>arg. Effect ''H1-only'' (Resolve [])) example_context)) =
     (Inr [],
      record_event (HandlerEffect ''H1-only'')
        (onSendActivities (logging ''H2-before'' ''H2-after'')
          (onSendActivities (\<lambda>arg. Effect ''H1-only'' (Resolve [])) example_context)))"
proof -
  let ?hi = "empty_activity\<lparr> a_text := Some ''hi'' \<rparr> :: (string, string) Activity"
  let ?S = "\<lambda>arg :: (string, string) Activity list.
      Effect ''H1-only'' (Resolve ([] :: ResourceResponse list))"
  let ?cut = "onSendActivities (logging ''H2-before'' ''H2-after'')
      (onSendActivities ?S example_context)"
  have fresh: "onSendActivities_handlers example_context = []"
    by (simp add: example_context_def TurnContext_new_def)
  have ok: "adapter_sendActivities (adapter example_context)
      (map (stamp (getConversationReference (activity example_context))) [?hi]) =
      Inr [ResourceResponse ''sent'']"
    by (simp add: example_context_def TurnContext_new_def example_adapter_def)
  have sc: "\<forall>arg :: (string, string) Activity list. never_calls_next (?S arg)"
    by (simp add: never_calls_next.intros)
  have hs: "onSendActivities_handlers ?cut = [] @ ?S # [logging ''H2-before'' ''H2-after'']"
    by (simp add: onSendActivities_def fresh)
  note ordered = interceptor_chain_order[where ctx = example_context and acts = "[?hi]"
      and responses = "[ResourceResponse ''sent'']"
      and ?b1.0 = "''H1-before''" and ?a1.0 = "''H1-after''"
      and ?b2.0 = "''H2-before''" and ?a2.0 = "''H2-after''"]
  note stopped = interceptor_chain_order[where ctx = ?cut and acts = "[?hi]"
      and S = ?S and earlier = "[]" and later = "[logging ''H2-before'' ''H2-after'']"
      and nxt = "\<lambda>c. (Inr [], c)"]
  have "sendActivities [?hi]
       (onSendActivities (logging ''H2-before'' ''H2-after'')
          (onSendActivities (logging ''H1-before'' ''H1-after'') example_context)) =
     (Inr [ResourceResponse ''sent''],
      example_context\<lparr> responded := True,
        onSendActivities_handlers :=
          [logging ''H1-before'' ''H1-after'', logging ''H2-before'' ''H2-after''],
        trace := trace example_context @
          [HandlerEffect ''H1-before'', HandlerEffect ''H2-before'',
           SendActivitiesCall
             (map (stamp (getConversationReference (activity example_context))) [?hi]) True,
           HandlerEffect ''H2-after'', HandlerEffect ''H1-after''] \<rparr>)"
    using ordered fresh ok by blast
  then have r1: "sendActivities [?hi]
       (onSendActivities (logging ''H2-before'' ''H2-after'')
          (onSendActivities (logging ''H1-before'' ''H1-after'') example_context)) =
     (Inr [ResourceResponse ''sent''],
      example_context\<lparr> responded := True,
        onSendActivities_handlers :=
          [logging ''H1-before'' ''H1-after'', logging ''H2-before'' ''H2-after''],
        trace :=
          [HandlerEffect ''H1-before'', HandlerEffect ''H2-before'',
           SendActivitiesCall [stamp (getConversationReference example_request) ?hi] True,
           HandlerEffect ''H2-after'', HandlerEffect ''H1-after''] \<rparr>)"
    by (simp add: example_context_def TurnContext_new_def)
  have "sendActivities [?hi] ?cut =
      emit ([] @ [?S]) (map (stamp (getConversationReference (activity ?cut))) [?hi])
        (\<lambda>c. (Inr [], c)) ?cut"
    using stopped sc hs by blast
  then have r2: "sendActivities [?hi] ?cut =
      (Inr [], record_event (HandlerEffect ''H1-only'') ?cut)"
    by (simp add: emit_foldr)
  show ?thesis using fresh r1 sc r2 by blast
qed

section \<open>The responded flag\<close>

lemma flag_step_send_transport: "flag_step c (snd (send_transport output c))"
  by (simp add: send_transport_def flag_step_def set_responded_def record_event_def
      sends_ok_def split: sum.splits)

lemma flag_step_update_transport: "flag_step c (snd (update_transport a c))"
  by (simp add: update_transport_def flag_step_def record_event_def sends_ok_def
      split: sum.splits)

lemma flag_step_delete_transport: "flag_step c (snd (delete_transport r c))"
  by (simp add: delete_transport_def flag_step_def record_event_def sends_ok_def
      split: sum.splits)

lemma flag_step_sendActivities: "flag_step c (snd (sendActivities acts c))"
  by (simp add: sendActivities_def Let_def emit_flag_step flag_step_send_transport)

lemma flag_step_after_op: "flag_step c (after_op c op)"
proof (cases op)
  case (AssignResponded v)
  then show ?thesis by (simp add: flag_step_set_responded)
next
  case (SendActivities acts)
  then show ?thesis by (simp add: flag_step_sendActivities)
next
  case (SendActivity a speak hint)
  then show ?thesis
    by (simp add: sendActivity_def Let_def split_beta flag_step_sendActivities)
next
  case (UpdateActivity a)
  then show ?thesis
    by (simp add: updateActivity_def emit_flag_step flag_step_update_transport)
next
  case (DeleteActivity r)
  then show ?thesis
    by (simp add: deleteActivity_def Let_def emit_flag_step flag_step_delete_transport)
next
  case (OnSendActivities h)
  then show ?thesis by (simp add: onSendActivities_def flag_step_def sends_ok_def)
next
  case (OnUpdateActivity h)
  then show ?thesis by (simp add: onUpdateActivity_def flag_step_def sends_ok_def)
next
  case (OnDeleteActivity h)
  then show ?thesis by (simp add: onDeleteActivity_def flag_step_def sends_ok_def)
qed

lemma responded_foldl_after_op: "responded c \<Longrightarrow> responded (foldl after_op c ops)"
proof (induction ops arbitrary: c)
  case Nil
  then show ?case by simp
next
  case (Cons op ops)
  have "responded (after_op c op)"
    using flag_step_after_op[of c op] Cons.prems by (simp add: flag_step_def)
  then show ?case using Cons.IH by simp
qed

text \<open>
  Claim C2, as amended. The flag \<open>responded\<close> of a new context is false. Assigning false fails
  with \<open>InvalidStateTransition\<close> and changes nothing; assigning true succeeds and
  stores true. A \<open>sendActivities\<close> on a context without send handlers whose adapter
  call resolves returns the responses and sets the flag; with any handlers at all, a
  \<open>sendActivities\<close> during which a call of the adapter's \<open>sendActivities\<close> resolved
  leaves the flag true. Once the flag is true it is true after every further sequence
  of operations of the context, whatever their outcomes.
\<close>

theorem responded_monotonic:
  fixes ctx :: "('u, 'c) TurnContext" and acts :: "('u, 'c) Activity list"
  defines "output \<equiv> map (stamp (getConversationReference (activity ctx))) acts"
  shows
    "responded (TurnContext_new ad request) = False \<and>
     set_responded False ctx = (Inl InvalidStateTransition, ctx) \<and>
     set_responded True ctx = (Inr (), ctx\<lparr> responded := True \<rparr>) \<and>
     (onSendActivities_handlers ctx = [] \<and>
      adapter_sendActivities (adapter ctx) output = Inr responses \<longrightarrow>
        sendActivities acts ctx =
          (Inr responses,
           ctx\<lparr> responded := True,
                trace := trace ctx @ [SendActivitiesCall output True] \<rparr>)) \<and>
     (sends_ok ctx < sends_ok (snd (sendActivities acts ctx)) \<longrightarrow>
        responded (snd (sendActivities acts ctx))) \<and>
     (responded ctx \<longrightarrow> responded (foldl after_op ctx ops))"
proof (intro conjI impI)
  show "responded (TurnContext_new ad request) = False"
    by (simp add: TurnContext_new_def)
  show "set_responded False ctx = (Inl InvalidStateTransition, ctx)"
    by (simp add: set_responded_def)
  show "set_responded True ctx = (Inr (), ctx\<lparr> responded := True \<rparr>)"
    by (simp add: set_responded_def)
  show "sendActivities acts ctx =
          (Inr responses,
           ctx\<lparr> responded := True,
                trace := trace ctx @ [SendActivitiesCall output True] \<rparr>)"
    if "onSendActivities_handlers ctx = [] \<and>
        adapter_sendActivities (adapter ctx) output = Inr responses"
    using that
    by (simp add: sendActivities_def emit_foldr send_transport_def set_responded_def
        record_event_def output_def)
  show "responded (snd (sendActivities acts ctx))"
    if "sends_ok ctx < sends_ok (snd (sendActivities acts ctx))"
    using that flag_step_sendActivities[of ctx acts] by (simp add: flag_step_def)
  show "responded (foldl after_op ctx ops)" if "responded ctx"
    using that by (rule responded_foldl_after_op)
qed

theorem responded_monotonic_witness:
  "onSendActivities_handlers example_context = [] \<and>
   \<not> responded example_context \<and>
   sendActivities [empty_activity\<lparr> a_text := Some ''hi'' \<rparr>] example_context =
     (Inr [ResourceResponse ''sent''],
      example_context\<lparr> responded := True,
        trace := [SendActivitiesCall
                    [stamp (getConversationReference example_request)
                       (empty_activity\<lparr> a_text := Some ''hi'' \<rparr>)] True] \<rparr>) \<and>
   sends_ok example_context
     < sends_ok (snd (sendActivities [empty_activity\<lparr> a_text := Some ''hi'' \<rparr>] example_context)) \<and>
   responded (snd (sendActivities [empty_activity\<lparr> a_text := Some ''hi'' \<rparr>] example_context)) \<and>
   responded
     (foldl after_op
        (snd (sendActivities [empty_activity\<lparr> a_text := Some ''hi'' \<rparr>] example_context))
        [AssignResponded False, SendActivities [empty_activity], DeleteActivity (Inl ''1234'')])"
proof -
  let ?hi = "empty_activity\<lparr> a_text := Some ''hi'' \<rparr> :: (string, string) Activity"
  have fresh: "onSendActivities_handlers example_context = []"
    by (simp add: example_context_def TurnContext_new_def)
  have unset: "\<not> responded example_context"
    by (simp add: example_context_def TurnContext_new_def)
  have ok: "adapter_sendActivities (adapter example_context)
      (map (stamp (getConversationReference (activity example_context))) [?hi]) =
      Inr [ResourceResponse ''sent'']"
    by (simp add: example_context_def TurnContext_new_def example_adapter_def)
  note first = responded_monotonic[where ctx = example_context and acts = "[?hi]"
      and responses = "[ResourceResponse ''sent'']"]
  have sent: "sendActivities [?hi] example_context =
     (Inr [ResourceResponse ''sent''],
      example_context\<lparr> responded := True,
        trace := trace example_context @
          [SendActivitiesCall
             (map (stamp (getConversationReference (activity example_context))) [?hi]) True] \<rparr>)"
    using first fresh ok by blast
  have more: "sends_ok example_context < sends_ok (snd (sendActivities [?hi] example_context))"
    unfolding sent by (simp add: sends_ok_def example_context_def TurnContext_new_def)
  have set: "responded (snd (sendActivities [?hi] example_context))"
    using first more by blast
  note later = responded_monotonic[where ctx = "snd (sendActivities [?hi] example_context)"
      and ops = "[AssignResponded False, SendActivities [empty_activity],
                  DeleteActivity (Inl ''1234'')]"]
  have kept: "responded
     (foldl after_op (snd (sendActivities [?hi] example_context))
        [AssignResponded False, SendActivities [empty_activity], DeleteActivity (Inl ''1234'')])"
    using later set by blast
  have shape: "sendActivities [?hi] example_context =
     (Inr [ResourceResponse ''sent''],
      example_context\<lparr> responded := True,
        trace := [SendActivitiesCall
                    [stamp (getConversationReference example_request) ?hi] True] \<rparr>)"
    unfolding sent by (simp add: example_context_def TurnContext_new_def)
  show ?thesis
    using fresh unset shape more set kept by blast
qed

text \<open>
  The claim as stated says that a successful \<open>sendActivities\<close> sets the flag. With a
  send handler that resolves without calling \<open>next\<close>, \<open>sendActivities\<close> on a new
  context succeeds, nothing reaches the adapter, and the flag is still false.
\<close>

theorem responded_counterexample:
  "sendActivities [example_request] (onSendActivities swallow example_context) =
     (Inr [], onSendActivities swallow example_context) \<and>
   responded (onSendActivities swallow example_context) = False \<and>
   trace (onSendActivities swallow example_context) = []"
  by (simp add: sendActivities_def onSendActivities_def example_context_def
      TurnContext_new_def emit_foldr swallow_def Let_def)

section \<open>Conversation references\<close>

text \<open>
  Claim C3, as amended. Extract a reference from an activity, apply it to a second
  activity and extract again: conversation, channelId and serviceUrl come back as they
  were in either direction. With \<open>isIncoming\<close> true, user and bot come back as they
  were too; with \<open>isIncoming\<close> false, which is the default, they come back exchanged.
\<close>

theorem reference_roundtrip:
  fixes a :: "('u, 'c) Activity" and a2 :: "('u, 'c) Activity"
  defines "r \<equiv> getConversationReference a"
  defines "r' \<equiv> \<lambda>isIncoming.
      getConversationReference (applyConversationReference a2 r isIncoming)"
  shows
    "conversation (r' isIncoming) = conversation r \<and>
     channelId (r' isIncoming) = channelId r \<and>
     serviceUrl (r' isIncoming) = serviceUrl r \<and>
     user (r' True) = user r \<and> bot' (r' True) = bot' r \<and>
     user (r' False) = bot' r \<and> bot' (r' False) = user r"
  by (simp add: r_def r'_def getConversationReference_def applyConversationReference_def
      shallowCopy_def Let_def)

text \<open>
  The claim as stated fails for the default direction: the user of the reference
  extracted after the round trip is the bot of the first reference.
\<close>

theorem reference_roundtrip_counterexample:
  "user (getConversationReference
          (applyConversationReference (empty_activity :: (string, string) Activity)
             (getConversationReference example_request) False))
     \<noteq> user (getConversationReference example_request)"
  by (simp add: getConversationReference_def applyConversationReference_def
      shallowCopy_def Let_def example_request_def empty_activity_def)

text \<open>
  Claim C4. With \<open>isIncoming\<close> false, \<open>applyConversationReference\<close> changes exactly
  channelId, serviceUrl and conversation (copied from the reference), from (the
  reference's bot), recipient (its user) and, when the reference's activityId is
  present (in JavaScript's sense: defined and not the empty string), replyToId;
  otherwise replyToId stays as it was. With \<open>isIncoming\<close> true, from is the user,
  recipient the bot, and \<open>id\<close> takes the place of replyToId.
\<close>

theorem applyConversationReference_fields:
  "applyConversationReference a reference False =
     a\<lparr> a_channelId := channelId reference, a_serviceUrl := serviceUrl reference,
       a_conversation := conversation reference,
       a_from := bot' reference, a_recipient := user reference,
       a_replyToId := (if truthy (activityId reference) then activityId reference
                       else a_replyToId a) \<rparr> \<and>
   applyConversationReference a reference True =
     a\<lparr> a_channelId := channelId reference, a_serviceUrl := serviceUrl reference,
       a_conversation := conversation reference,
       a_from := user reference, a_recipient := bot' reference,
       a_id := (if truthy (activityId reference) then activityId reference
                else a_id a) \<rparr>"
  by (simp add: applyConversationReference_def Let_def)

section \<open>Effects of the reference transforms\<close>

lemma shallowCopy_h_frame:
  assumes "shallowCopy_h v h = Some (v', h1)"
  shows "activities h1 = activities h \<and> references h1 = references h \<and>
         (\<exists>zs. objects h1 = objects h @ zs)"
  using assms
  by (auto simp: shallowCopy_h_def split: option.splits)

lemma shallowCopy_h_Some:
  assumes "shallowCopy_h (Some p) h = Some (v', h1)"
  shows "p < length (objects h) \<and> v' = Some (length (objects h)) \<and>
         objects h1 = objects h @ [objects h ! p]"
  using assms
  by (auto simp: shallowCopy_h_def lookup_def split: option.splits if_splits)

lemma shallowCopy_h_total:
  assumes "valid_addr h v"
  shows "\<exists>v' h1. shallowCopy_h v h = Some (v', h1)"
  using assms
  by (auto simp: shallowCopy_h_def lookup_def valid_addr_def split: option.splits)

lemma shallowCopy_h_is_copy:
  assumes copy: "shallowCopy_h v h1 = Some (v', h2)"
    and valid: "valid_addr h v"
    and pre: "objects h1 = objects h @ xs"
    and post: "objects h3 = objects h2 @ ys"
  shows "is_copy h h3 v v'"
proof (cases v)
  case None
  then show ?thesis using copy by (simp add: is_copy_def shallowCopy_h_def)
next
  case (Some p)
  have p: "p < length (objects h)" using valid Some by (simp add: valid_addr_def)
  from copy Some have res: "v' = Some (length (objects h1))"
    "objects h2 = objects h1 @ [objects h1 ! p]"
    using shallowCopy_h_Some by blast+
  have h3: "objects h3 = objects h1 @ [objects h ! p] @ ys"
    using res post pre p by (simp add: nth_append)
  have "lookup (objects h3) (length (objects h1)) = lookup (objects h) p"
    using p by (simp add: lookup_def h3)
  then show ?thesis using Some res p pre by (simp add: is_copy_def)
qed

lemma is_copy_contents: "is_copy h h' old new \<Longrightarrow> contents h' new = contents h old"
  by (auto simp: is_copy_def contents_def split: option.splits)

lemma wf_heap_activity:
  assumes "wf_heap h" "lookup (activities h) pa = Some act"
  shows "valid_addr h (a_from act) \<and> valid_addr h (a_recipient act) \<and>
         valid_addr h (a_conversation act)"
  using assms
  by (auto simp: wf_heap_def lookup_def list_all_length split: if_splits)

lemma valid_addr_append:
  "valid_addr h v \<Longrightarrow> objects h1 = objects h @ xs \<Longrightarrow> valid_addr h1 v"
  by (auto simp: valid_addr_def split: option.splits)

text \<open>
  Claim C5, as amended. \<open>applyConversationReference\<close> returns the very activity
  object it was given, after assigning to it: the object at that address is replaced
  by the addressed activity, while every reference and every account object is left as
  it was. \<open>getConversationReference\<close> on a well-formed heap returns a new reference
  object and leaves every activity, every earlier reference and every earlier account
  object as it was; the user, bot and conversation of the new reference are copies
  (new objects with the contents of the activity's from, recipient and conversation),
  and the value of the new reference is the value-level \<open>getConversationReference\<close>
  of the value of the activity.
\<close>

theorem reference_transforms_effects:
  fixes h :: "'o heap"
  shows
    "(applyConversationReference_h pa pr isIncoming h = Some (res, h') \<longrightarrow>
        res = pa \<and> references h' = references h \<and> objects h' = objects h \<and>
        (\<exists>act ref.
           lookup (activities h) pa = Some act \<and> lookup (references h) pr = Some ref \<and>
           activities h' = (activities h)[pa := applyConversationReference act ref isIncoming])) \<and>
     (wf_heap h \<and> pa < length (activities h) \<longrightarrow>
        (\<exists>new h''.
           getConversationReference_h pa h = Some (new, h'') \<and>
           new = length (references h) \<and>
           activities h'' = activities h \<and>
           take (length (references h)) (references h'') = references h \<and>
           take (length (objects h)) (objects h'') = objects h \<and>
           (\<exists>act r.
              lookup (activities h) pa = Some act \<and> lookup (references h'') new = Some r \<and>
              is_copy h h'' (a_from act) (user r) \<and>
              is_copy h h'' (a_recipient act) (bot' r) \<and>
              is_copy h h'' (a_conversation act) (conversation r) \<and>
              reference_value h'' r = getConversationReference (activity_value h act))))"
proof (rule conjI; rule impI)
  assume "applyConversationReference_h pa pr isIncoming h = Some (res, h')"
  then show "res = pa \<and> references h' = references h \<and> objects h' = objects h \<and>
        (\<exists>act ref.
           lookup (activities h) pa = Some act \<and> lookup (references h) pr = Some ref \<and>
           activities h' = (activities h)[pa := applyConversationReference act ref isIncoming])"
    by (auto simp: applyConversationReference_h_def split: option.splits)
next
  assume wf: "wf_heap h \<and> pa < length (activities h)"
  define act where "act = activities h ! pa"
  have act: "lookup (activities h) pa = Some act"
    using wf by (simp add: lookup_def act_def)
  have valid: "valid_addr h (a_from act)" "valid_addr h (a_recipient act)"
    "valid_addr h (a_conversation act)"
    using wf_heap_activity[OF _ act] wf by blast+
  obtain u h1 where c1: "shallowCopy_h (a_from act) h = Some (u, h1)"
    using shallowCopy_h_total[OF valid(1)] by blast
  obtain xs1 where f1: "activities h1 = activities h" "references h1 = references h"
    "objects h1 = objects h @ xs1"
    using shallowCopy_h_frame[OF c1] by blast
  obtain b h2 where c2: "shallowCopy_h (a_recipient act) h1 = Some (b, h2)"
    using shallowCopy_h_total[OF valid_addr_append[OF valid(2) f1(3)]] by blast
  obtain xs2 where f2: "activities h2 = activities h1" "references h2 = references h1"
    "objects h2 = objects h1 @ xs2"
    using shallowCopy_h_frame[OF c2] by blast
  have o2: "objects h2 = objects h @ (xs1 @ xs2)" using f1 f2 by simp
  obtain c h3 where c3: "shallowCopy_h (a_conversation act) h2 = Some (c, h3)"
    using shallowCopy_h_total[OF valid_addr_append[OF valid(3) o2]] by blast
  obtain xs3 where f3: "activities h3 = activities h2" "references h3 = references h2"
    "objects h3 = objects h2 @ xs3"
    using shallowCopy_h_frame[OF c3] by blast
  define r where "r = \<lparr> activityId = a_id act, user = u, bot' = b, conversation = c,
      channelId = a_channelId act, serviceUrl = a_serviceUrl act \<rparr>"
  define h4 where "h4 = h3\<lparr> references := references h3 @ [r] \<rparr>"
  have run: "getConversationReference_h pa h = Some (length (references h), h4)"
    using act c1 c2 c3 f1 f2 f3
    by (simp add: getConversationReference_h_def h4_def r_def)
  have o4: "objects h4 = objects h3" by (simp add: h4_def)
  have k1: "is_copy h h4 (a_from act) (user r)"
    using shallowCopy_h_is_copy[OF c1 valid(1), of "[]" h4 "xs2 @ xs3"] o4 f2 f3
    by (simp add: r_def)
  have k2: "is_copy h h4 (a_recipient act) (bot' r)"
    using shallowCopy_h_is_copy[OF c2 valid(2) f1(3), of h4 xs3] o4 f3
    by (simp add: r_def)
  have k3: "is_copy h h4 (a_conversation act) (conversation r)"
    using shallowCopy_h_is_copy[OF c3 valid(3) o2, of h4 "[]"] o4
    by (simp add: r_def)
  have val: "reference_value h4 r = getConversationReference (activity_value h act)"
    using is_copy_contents[OF k1] is_copy_contents[OF k2] is_copy_contents[OF k3]
    by (simp add: reference_value_def getConversationReference_def activity_value_def
        shallowCopy_def r_def)
  have look: "lookup (references h4) (length (references h)) = Some r"
    using f1 f2 f3 by (simp add: lookup_def h4_def)
  have frame: "activities h4 = activities h"
    "take (length (references h)) (references h4) = references h"
    "take (length (objects h)) (objects h4) = objects h"
    using f1 f2 f3 by (simp_all add: h4_def)
  show "\<exists>new h''.
           getConversationReference_h pa h = Some (new, h'') \<and>
           new = length (references h) \<and>
           activities h'' = activities h \<and>
           take (length (references h)) (references h'') = references h \<and>
           take (length (objects h)) (objects h'') = objects h \<and>
           (\<exists>act r.
              lookup (activities h) pa = Some act \<and> lookup (references h'') new = Some r \<and>
              is_copy h h'' (a_from act) (user r) \<and>
              is_copy h h'' (a_recipient act) (bot' r) \<and>
              is_copy h h'' (a_conversation act) (conversation r) \<and>
              reference_value h'' r = getConversationReference (activity_value h act))"
    using run frame act look k1 k2 k3 val by blast
qed

text \<open>
  The claim as stated says that the input activity is not mutated. On the example heap
  the call returns address 1, the address of its input, and the activity at address 1,
  which had no \<open>from\<close> before the call, has the bot's address there after it.
\<close>

theorem reference_transforms_counterexample:
  "applyConversationReference_h 1 0 False example_heap =
     Some (1, example_heap\<lparr> activities :=
                [activities example_heap ! 0,
                 applyConversationReference (activities example_heap ! 1)
                   (references example_heap ! 0) False] \<rparr>) \<and>
   a_from (applyConversationReference (activities example_heap ! 1)
             (references example_heap ! 0) False) = Some 1 \<and>
   a_from (activities example_heap ! 1) = None"
  by (simp add: applyConversationReference_h_def applyConversationReference_def
      example_heap_def lookup_def empty_activity_def truthy_def Let_def)

theorem reference_transforms_effects_witness:
  "applyConversationReference_h 1 0 False example_heap =
     Some (1, example_heap\<lparr> activities :=
                (activities example_heap)
                  [1 := applyConversationReference (activities example_heap ! 1)
                          (references example_heap ! 0) False] \<rparr>) \<and>
   wf_heap example_heap \<and> 0 < length (activities example_heap) \<and>
   (\<exists>h''. getConversationReference_h 0 example_heap = Some (1, h'') \<and>
      activities h'' = activities example_heap \<and>
      take 1 (references h'') = references example_heap \<and>
      take 3 (objects h'') = objects example_heap \<and>
      (\<exists>r. lookup (references h'') 1 = Some r \<and>
         is_copy example_heap h'' (Some 0) (user r) \<and>
         is_copy example_heap h'' (Some 1) (bot' r) \<and>
         is_copy example_heap h'' (Some 2) (conversation r)))"
proof -
  have wf: "wf_heap example_heap \<and> 0 < length (activities example_heap)"
    by (simp add: wf_heap_def example_heap_def valid_addr_def empty_activity_def)
  have ap: "applyConversationReference_h 1 0 False example_heap =
     Some (1, example_heap\<lparr> activities :=
                (activities example_heap)
                  [1 := applyConversationReference (activities example_heap ! 1)
                          (references example_heap ! 0) False] \<rparr>)"
    by (simp add: applyConversationReference_h_def lookup_def example_heap_def)
  have len: "length (references example_heap) = 1" "length (objects example_heap) = 3"
    by (simp_all add: example_heap_def)
  have act0: "a_from act = Some 0 \<and> a_recipient act = Some 1 \<and> a_conversation act = Some 2"
    if "lookup (activities example_heap) 0 = Some act" for act
    using that by (auto simp: lookup_def example_heap_def empty_activity_def)
  from reference_transforms_effects[where h = example_heap and pa = 0] wf
  obtain h'' act r where got:
    "getConversationReference_h 0 example_heap = Some (length (references example_heap), h'')"
    "activities h'' = activities example_heap"
    "take (length (references example_heap)) (references h'') = references example_heap"
    "take (length (objects example_heap)) (objects h'') = objects example_heap"
    "lookup (activities example_heap) 0 = Some act"
    "lookup (references h'') (length (references example_heap)) = Some r"
    "is_copy example_heap h'' (a_from act) (user r)"
    "is_copy example_heap h'' (a_recipient act) (bot' r)"
    "is_copy example_heap h'' (a_conversation act) (conversation r)"
    by blast
  have "getConversationReference_h 0 example_heap = Some (1, h'') \<and>
      activities h'' = activities example_heap \<and>
      take 1 (references h'') = references example_heap \<and>
      take 3 (objects h'') = objects example_heap \<and>
      (\<exists>r. lookup (references h'') 1 = Some r \<and>
         is_copy example_heap h'' (Some 0) (user r) \<and>
         is_copy example_heap h'' (Some 1) (bot' r) \<and>
         is_copy example_heap h'' (Some 2) (conversation r))"
    using got act0[OF got(5)] by (auto simp: len)
  then show ?thesis using wf ap by blast
qed

section \<open>The prompts\<close>

lemma exec_six_digits_None:
  "exec_six_digits s = None \<longleftrightarrow> (\<forall>i. \<not> six_digits_at s i)"
proof (induction s)
  case Nil
  then show ?case by (simp add: six_digits_at_def)
next
  case (Cons c cs)
  have shift: "six_digits_at (c # cs) (Suc i) = six_digits_at cs i" for i
    by (auto simp: six_digits_at_def)
  show ?case
  proof (cases "six_digits_at (c # cs) 0")
    case True
    then have "exec_six_digits (c # cs) \<noteq> None"
      by (simp add: six_digits_at_def)
    with True show ?thesis by blast
  next
    case False
    then have "exec_six_digits (c # cs) = exec_six_digits cs"
      by (auto simp: six_digits_at_def)
    moreover have "(\<forall>i. \<not> six_digits_at (c # cs) i) \<longleftrightarrow> (\<forall>i. \<not> six_digits_at cs i)"
      using False shift by (metis not0_implies_Suc)
    ultimately show ?thesis using Cons.IH by simp
  qed
qed

lemma exec_six_digits_leftmost:
  assumes "six_digits_at s i" "\<forall>j<i. \<not> six_digits_at s j"
  shows "exec_six_digits s = Some (take 6 (drop i s))"
  using assms
proof (induction s arbitrary: i)
  case Nil
  then show ?case by (simp add: six_digits_at_def)
next
  case (Cons c cs)
  have shift: "six_digits_at (c # cs) (Suc k) = six_digits_at cs k" for k
    by (auto simp: six_digits_at_def)
  show ?case
  proof (cases i)
    case 0
    with Cons.prems show ?thesis by (simp add: six_digits_at_def)
  next
    case (Suc k)
    with Cons.prems have no0: "\<not> six_digits_at (c # cs) 0" by blast
    have at: "six_digits_at cs k" using Cons.prems(1) Suc shift by simp
    have left: "\<forall>j<k. \<not> six_digits_at cs j"
      using Cons.prems(2) Suc shift by (metis Suc_less_eq)
    have "exec_six_digits (c # cs) = exec_six_digits cs"
      using no0 by (auto simp: six_digits_at_def)
    then show ?thesis using Cons.IH[OF at left] Suc by simp
  qed
qed

lemma exec_six_digits_example: "exec_six_digits ''Your code is 482913'' = Some ''482913''"
  by (simp add: is_digit_def)

text \<open>
  Claim C6, as amended. \<open>recognize\<close> throws \<open>UnsupportedAdapter\<close> when the
  adapter cannot retrieve tokens. Otherwise, for a message: when six digits in a row
  stand somewhere in the text, the code is the six digits at the leftmost such
  position (also when more digits follow them), the adapter's \<open>getUserToken\<close> is
  called once with the configured connection name and that code, and the result is the
  validator applied to the token (the token itself without a validator), or the
  adapter's error; when no six digits stand in a row, no exchange is made and the
  result is the validator applied to the absent value. The text "Your code is 482913"
  gives the code "482913".
\<close>

theorem oauth_recognize_magic_code:
  fixes ctx :: "('u, 'c) TurnContext" and settings :: OAuthPromptSettings
  defines "t \<equiv> to_String (a_text (activity ctx))"
  defines "cn \<equiv> connectionName settings"
  shows
    "(adapter_getUserToken (adapter ctx) = None \<longrightarrow>
        OAuthPrompt_recognize settings validator ctx = Throws UnsupportedAdapter) \<and>
     (adapter_getUserToken (adapter ctx) = Some exchange \<and>
      a_type (activity ctx) = Some ''message'' \<longrightarrow>
        (six_digits_at t i \<and> (\<forall>j<i. \<not> six_digits_at t j) \<longrightarrow>
           OAuthPrompt_recognize settings validator ctx =
             Returns
               (case exchange cn (Some (take 6 (drop i t))) of
                  Inl e \<Rightarrow>
                    (Inl e, record_event (GetUserTokenCall cn (Some (take 6 (drop i t)))) ctx)
                | Inr token \<Rightarrow>
                    validate validator token
                      (record_event (GetUserTokenCall cn (Some (take 6 (drop i t)))) ctx))) \<and>
        ((\<forall>j. \<not> six_digits_at t j) \<longrightarrow>
           OAuthPrompt_recognize settings validator ctx = Returns (validate validator None ctx)) \<and>
        (a_text (activity ctx) = Some ''Your code is 482913'' \<longrightarrow>
           OAuthPrompt_recognize settings validator ctx =
             Returns
               (case exchange cn (Some ''482913'') of
                  Inl e \<Rightarrow> (Inl e, record_event (GetUserTokenCall cn (Some ''482913'')) ctx)
                | Inr token \<Rightarrow>
                    validate validator token
                      (record_event (GetUserTokenCall cn (Some ''482913'')) ctx))))"
proof (rule conjI; rule impI)
  assume "adapter_getUserToken (adapter ctx) = None"
  then show "OAuthPrompt_recognize settings validator ctx = Throws UnsupportedAdapter"
    by (simp add: OAuthPrompt_recognize_def)
next
  assume a: "adapter_getUserToken (adapter ctx) = Some exchange \<and>
      a_type (activity ctx) = Some ''message''"
  then have ev: "\<not> isTokenResponseEvent ctx"
    by (simp add: isTokenResponseEvent_def)
  have gen: "OAuthPrompt_recognize settings validator ctx =
      Returns
        (case exec_six_digits t of
           Some code \<Rightarrow>
             (case exchange cn (Some code) of
                Inl e \<Rightarrow> (Inl e, record_event (GetUserTokenCall cn (Some code)) ctx)
              | Inr token \<Rightarrow>
                  validate validator token (record_event (GetUserTokenCall cn (Some code)) ctx))
         | None \<Rightarrow> validate validator None ctx)"
    using a ev
    by (simp add: OAuthPrompt_recognize_def t_def cn_def split: option.splits sum.splits)
  have p1: "OAuthPrompt_recognize settings validator ctx =
             Returns
               (case exchange cn (Some (take 6 (drop i t))) of
                  Inl e \<Rightarrow>
                    (Inl e, record_event (GetUserTokenCall cn (Some (take 6 (drop i t)))) ctx)
                | Inr token \<Rightarrow>
                    validate validator token
                      (record_event (GetUserTokenCall cn (Some (take 6 (drop i t)))) ctx))"
    if "six_digits_at t i \<and> (\<forall>j<i. \<not> six_digits_at t j)"
    using that exec_six_digits_leftmost[of t i] by (simp add: gen)
  have p2: "OAuthPrompt_recognize settings validator ctx = Returns (validate validator None ctx)"
    if "\<forall>j. \<not> six_digits_at t j"
    using that exec_six_digits_None[of t] by (simp add: gen)
  have p3: "OAuthPrompt_recognize settings validator ctx =
             Returns
               (case exchange cn (Some ''482913'') of
                  Inl e \<Rightarrow> (Inl e, record_event (GetUserTokenCall cn (Some ''482913'')) ctx)
                | Inr token \<Rightarrow>
                    validate validator token
                      (record_event (GetUserTokenCall cn (Some ''482913'')) ctx))"
    if "a_text (activity ctx) = Some ''Your code is 482913''"
  proof -
    have "t = ''Your code is 482913''" using that by (simp add: t_def to_String_def)
    then show ?thesis using exec_six_digits_example by (simp add: gen)
  qed
  show "(six_digits_at t i \<and> (\<forall>j<i. \<not> six_digits_at t j) \<longrightarrow>
           OAuthPrompt_recognize settings validator ctx =
             Returns
               (case exchange cn (Some (take 6 (drop i t))) of
                  Inl e \<Rightarrow>
                    (Inl e, record_event (GetUserTokenCall cn (Some (take 6 (drop i t)))) ctx)
                | Inr token \<Rightarrow>
                    validate validator token
                      (record_event (GetUserTokenCall cn (Some (take 6 (drop i t)))) ctx))) \<and>
        ((\<forall>j. \<not> six_digits_at t j) \<longrightarrow>
           OAuthPrompt_recognize settings validator ctx = Returns (validate validator None ctx)) \<and>
        (a_text (activity ctx) = Some ''Your code is 482913'' \<longrightarrow>
           OAuthPrompt_recognize settings validator ctx =
             Returns
               (case exchange cn (Some ''482913'') of
                  Inl e \<Rightarrow> (Inl e, record_event (GetUserTokenCall cn (Some ''482913'')) ctx)
                | Inr token \<Rightarrow>
                    validate validator token
                      (record_event (GetUserTokenCall cn (Some ''482913'')) ctx)))"
    using p1 p2 p3 by blast
qed

text \<open>
  The claim as stated speaks of a run of exactly six digits. The message "1234567"
  holds one run of digits, seven long, and so no six-digit run; \<open>recognize\<close> still
  exchanges a code, "123456", and returns the token.
\<close>

theorem oauth_recognize_counterexample:
  "map length (digit_runs ''1234567'') = [7] \<and>
   OAuthPrompt_recognize example_settings None (message_context ''1234567'') =
     Returns
       (Inr (Some example_token),
        record_event (GetUserTokenCall ''GitConnection'' (Some ''123456''))
          (message_context ''1234567''))"
  by (simp add: digit_runs_def is_digit_def OAuthPrompt_recognize_def message_context_def
      TurnContext_new_def token_adapter_def example_adapter_def example_request_def
      example_settings_def isTokenResponseEvent_def to_String_def validate_def
      empty_activity_def)


theorem oauth_recognize_magic_code_witness:
  "OAuthPrompt_recognize example_settings None example_context =
     Throws UnsupportedAdapter \<and>
   six_digits_at ''482913 is my code'' 0 \<and>
   OAuthPrompt_recognize example_settings None (message_context ''482913 is my code'') =
     Returns
       (Inr (Some example_token),
        record_event (GetUserTokenCall ''GitConnection'' (Some ''482913''))
          (message_context ''482913 is my code'')) \<and>
   (\<forall>j. \<not> six_digits_at ''hello'' j) \<and>
   OAuthPrompt_recognize example_settings None (message_context ''hello'') =
     Returns (Inr None, message_context ''hello'') \<and>
   OAuthPrompt_recognize example_settings None (message_context ''Your code is 482913'') =
     Returns
       (Inr (Some example_token),
        record_event (GetUserTokenCall ''GitConnection'' (Some ''482913''))
          (message_context ''Your code is 482913''))"
proof -
  let ?exchange = "\<lambda>(cn :: string) (code :: string option).
      if code = None then Inr None else (Inr (Some example_token) :: error + TokenResponse option)"
  have ad: "adapter_getUserToken (adapter (message_context t)) = Some ?exchange \<and>
      a_type (activity (message_context t)) = Some ''message''" for t
    by (simp add: message_context_def TurnContext_new_def token_adapter_def
        example_request_def)
  have msg_text: "a_text (activity (message_context t)) = Some t" for t
    by (simp add: message_context_def TurnContext_new_def)
  have none: "adapter_getUserToken (adapter example_context) = None"
    by (simp add: example_context_def TurnContext_new_def example_adapter_def)
  have at0: "six_digits_at ''482913 is my code'' 0"
    by (simp add: six_digits_at_def is_digit_def)
  have nodigits: "\<forall>j. \<not> six_digits_at ''hello'' j"
    by (simp add: six_digits_at_def)
  note unsupported = oauth_recognize_magic_code[where ctx = example_context
      and settings = example_settings and validator = None]
  note first = oauth_recognize_magic_code[where ctx = "message_context ''482913 is my code''"
      and settings = example_settings and validator = None and exchange = ?exchange
      and i = 0]
  note absent = oauth_recognize_magic_code[where ctx = "message_context ''hello''"
      and settings = example_settings and validator = None and exchange = ?exchange]
  note scenario = oauth_recognize_magic_code[where ctx = "message_context ''Your code is 482913''"
      and settings = example_settings and validator = None and exchange = ?exchange]
  have r1: "OAuthPrompt_recognize example_settings None example_context =
     Throws UnsupportedAdapter"
    using unsupported none by blast
  have r2: "OAuthPrompt_recognize example_settings None (message_context ''482913 is my code'') =
     Returns
       (Inr (Some example_token),
        record_event (GetUserTokenCall ''GitConnection'' (Some ''482913''))
          (message_context ''482913 is my code''))"
    using first ad[of "''482913 is my code''"] at0
    by (simp add: msg_text to_String_def example_settings_def validate_def)
  have r3: "OAuthPrompt_recognize example_settings None (message_context ''hello'') =
     Returns (Inr None, message_context ''hello'')"
    using absent ad[of "''hello''"] nodigits
    by (simp add: msg_text to_String_def validate_def)
  have r4: "OAuthPrompt_recognize example_settings None
       (message_context ''Your code is 482913'') =
     Returns
       (Inr (Some example_token),
        record_event (GetUserTokenCall ''GitConnection'' (Some ''482913''))
          (message_context ''Your code is 482913''))"
    using scenario ad[of "''Your code is 482913''"]
    by (simp add: msg_text example_settings_def validate_def)
  show ?thesis using r1 r2 r3 r4 at0 nodigits by blast
qed

text \<open>
  Claim C7. \<open>prompt\<close> throws nothing: it returns a promise that is rejected with
  \<open>UnsupportedAdapter\<close> when the adapter lacks \<open>getUserToken\<close>, and with
  \<open>MalformedPrompt\<close> when a prompt activity is supplied that holds no OAuthCard
  attachment; in both cases the context is unchanged and the sending function is not
  called, whatever it is. A supplied prompt with an OAuthCard
  attachment is sent as it is. Without a prompt activity, the activity that is sent is
  a message whose only attachment is the OAuth card made from the settings.
\<close>

theorem oauth_prompt_validation:
  fixes ctx :: "('u, 'c) TurnContext"
  defines "signin \<equiv> \<lambda>settings. MessageFactory_attachment
      (CardFactory_oauthCard (connectionName settings) (title settings) (cardText settings))
        :: ('u, 'c) Activity"
  shows
    "(adapter_getUserToken (adapter ctx) = None \<longrightarrow>
        OAuthPrompt_prompt settings send prompt ctx = Returns (Inl UnsupportedAdapter, ctx)) \<and>
     (adapter_getUserToken (adapter ctx) \<noteq> None \<longrightarrow>
        (\<not> has_OAuthCard p \<longrightarrow>
           OAuthPrompt_prompt settings send (Some p) ctx = Returns (Inl MalformedPrompt, ctx)) \<and>
        (has_OAuthCard p \<longrightarrow> OAuthPrompt_prompt settings send (Some p) ctx = Returns (send p ctx)) \<and>
        OAuthPrompt_prompt settings send None ctx = Returns (send (signin settings) ctx) \<and>
        has_OAuthCard (signin settings) \<and>
        a_attachments (signin settings) =
          Some [\<lparr> contentType = Some oauthCard_contentType,
                   content = OAuthCard (connectionName settings) (title settings)
                               (cardText settings) \<rparr>])"
proof (rule conjI; rule impI)
  assume "adapter_getUserToken (adapter ctx) = None"
  then show "OAuthPrompt_prompt settings send prompt ctx = Returns (Inl UnsupportedAdapter, ctx)"
    by (simp add: OAuthPrompt_prompt_def)
next
  assume "adapter_getUserToken (adapter ctx) \<noteq> None"
  then obtain g where g: "adapter_getUserToken (adapter ctx) = Some g" by blast
  have bad: "OAuthPrompt_prompt settings send (Some p) ctx = Returns (Inl MalformedPrompt, ctx)"
    if "\<not> has_OAuthCard p"
    using that g
    by (auto simp: OAuthPrompt_prompt_def has_OAuthCard_def Let_def list_ex_iff
        filter_empty_conv split: option.splits)
  have good: "OAuthPrompt_prompt settings send (Some p) ctx = Returns (send p ctx)"
    if "has_OAuthCard p"
    using that g
    by (auto simp: OAuthPrompt_prompt_def has_OAuthCard_def Let_def list_ex_iff
        filter_empty_conv split: option.splits)
  have synth: "OAuthPrompt_prompt settings send None ctx = Returns (send (signin settings) ctx)"
    using g by (simp add: OAuthPrompt_prompt_def signin_def)
  have shape: "has_OAuthCard (signin settings)"
    "a_attachments (signin settings) =
          Some [\<lparr> contentType = Some oauthCard_contentType,
                   content = OAuthCard (connectionName settings) (title settings)
                               (cardText settings) \<rparr>]"
    by (simp_all add: signin_def has_OAuthCard_def MessageFactory_attachment_def
        CardFactory_oauthCard_def)
  show "(\<not> has_OAuthCard p \<longrightarrow>
           OAuthPrompt_prompt settings send (Some p) ctx = Returns (Inl MalformedPrompt, ctx)) \<and>
        (has_OAuthCard p \<longrightarrow> OAuthPrompt_prompt settings send (Some p) ctx = Returns (send p ctx)) \<and>
        OAuthPrompt_prompt settings send None ctx = Returns (send (signin settings) ctx) \<and>
        has_OAuthCard (signin settings) \<and>
        a_attachments (signin settings) =
          Some [\<lparr> contentType = Some oauthCard_contentType,
                   content = OAuthCard (connectionName settings) (title settings)
                               (cardText settings) \<rparr>]"
    using bad good synth shape by blast
qed

theorem oauth_prompt_validation_witness:
  "OAuthPrompt_prompt example_settings sendPrompt None example_context =
     Returns (Inl UnsupportedAdapter, example_context) \<and>
   \<not> has_OAuthCard (empty_activity\<lparr> a_text := Some ''Please sign in'' \<rparr> :: (string, string) Activity) \<and>
   OAuthPrompt_prompt example_settings sendPrompt
       (Some (empty_activity\<lparr> a_text := Some ''Please sign in'' \<rparr>)) (message_context ''hi'') =
     Returns (Inl MalformedPrompt, message_context ''hi'') \<and>
   OAuthPrompt_prompt example_settings sendPrompt None (message_context ''hi'') =
     Returns
       (Inr (),
        (message_context ''hi'')\<lparr> responded := True,
          trace :=
            [SendActivitiesCall
               [stamp (getConversationReference (example_request\<lparr> a_text := Some ''hi'' \<rparr>))
                  (MessageFactory_attachment
                     (CardFactory_oauthCard ''GitConnection'' ''Login To GitHub'' None))]
               True] \<rparr>)"
proof -
  let ?plain = "empty_activity\<lparr> a_text := Some ''Please sign in'' \<rparr> :: (string, string) Activity"
  have none: "adapter_getUserToken (adapter example_context) = None"
    by (simp add: example_context_def TurnContext_new_def example_adapter_def)
  have some: "adapter_getUserToken (adapter (message_context ''hi'')) \<noteq> None"
    by (simp add: message_context_def TurnContext_new_def token_adapter_def)
  have plain: "\<not> has_OAuthCard ?plain"
    by (simp add: has_OAuthCard_def empty_activity_def)
  note unsupported = oauth_prompt_validation[where ctx = example_context
      and settings = example_settings and send = sendPrompt and prompt = None]
  note supported = oauth_prompt_validation[where ctx = "message_context ''hi''"
      and settings = example_settings and send = sendPrompt and p = ?plain]
  have r1: "OAuthPrompt_prompt example_settings sendPrompt None example_context =
     Returns (Inl UnsupportedAdapter, example_context)"
    using unsupported none by blast
  have r2: "OAuthPrompt_prompt example_settings sendPrompt (Some ?plain) (message_context ''hi'') =
     Returns (Inl MalformedPrompt, message_context ''hi'')"
    using supported some plain by blast
  have r3: "OAuthPrompt_prompt example_settings sendPrompt None (message_context ''hi'') =
      Returns
        (sendPrompt (MessageFactory_attachment
                     (CardFactory_oauthCard ''GitConnection'' ''Login To GitHub'' None))
          (message_context ''hi''))"
    using supported some by (simp add: example_settings_def)
  have sent: "sendPrompt a (message_context ''hi'') =
     (Inr (),
      (message_context ''hi'')\<lparr> responded := True,
        trace :=
          [SendActivitiesCall
             [stamp (getConversationReference (example_request\<lparr> a_text := Some ''hi'' \<rparr>)) a]
             True] \<rparr>)" for a
    by (simp add: sendPrompt_def sendActivity_def sendActivities_def emit_foldr
        send_transport_def set_responded_def record_event_def message_context_def
        TurnContext_new_def token_adapter_def example_adapter_def Let_def)
  show ?thesis using r1 r2 r3 plain by (simp add: sent)
qed

text \<open>
  Claim C8. \<open>recognize\<close> runs the recognizer once, on the activity's text (the empty
  string when there is none) and the locale of the spec, and hands the resolution
  values of the first candidate, or the absent value, to the validator; without a
  validator that value is the result and no error is raised, and a text the recognizer
  does not match gives the absent value.
\<close>

theorem datetime_recognize:
  fixes ctx :: "('u, 'c) TurnContext"
  defines "utterance \<equiv> (case a_text (activity ctx) of None \<Rightarrow> [] | Some s \<Rightarrow> s)"
  defines "locale' \<equiv> \<lambda>d. spec_locale (a_locale (activity ctx)) d"
  shows
    "DatetimePrompt_recognize validator defaultLocale recognizer ctx =
       validate validator (spec_first_values (recognizer utterance (locale' defaultLocale))) ctx \<and>
     DatetimePrompt_recognize None defaultLocale recognizer ctx =
       (Inr (spec_first_values (recognizer utterance (locale' defaultLocale))), ctx) \<and>
     (recognizer utterance (locale' defaultLocale) = [] \<longrightarrow>
        DatetimePrompt_recognize None defaultLocale recognizer ctx = (Inr None, ctx))"
proof -
  have u: "or_else (a_text (activity ctx)) [] = utterance"
    by (simp add: or_else_def utterance_def split: option.splits)
  have l: "or_else (a_locale (activity ctx)) (or_else defaultLocale ''en-us'') =
      locale' defaultLocale"
    by (auto simp: or_else_def locale'_def spec_locale_def truthy_def split: option.splits)
  have v: "(case results of
              [] \<Rightarrow> None
            | r # x \<Rightarrow> (case resolution r of None \<Rightarrow> None | Some res \<Rightarrow> res_values res)) =
      spec_first_values results" for results
    by (cases results) (simp_all add: spec_first_values_def)
  have gen: "DatetimePrompt_recognize w defaultLocale recognizer ctx =
       validate w (spec_first_values (recognizer utterance (locale' defaultLocale))) ctx" for w
    by (simp add: DatetimePrompt_recognize_def Let_def u l v)
  show ?thesis
    using gen[of validator] gen[of None]
    by (simp add: validate_def spec_first_values_def)
qed

theorem datetime_recognize_witness:
  "DatetimePrompt_recognize None None example_recognizer (message_context ''tomorrow at 3pm'') =
     (Inr (Some [\<lparr> timex = ''2018-03-02T15'', fd_type = ''datetime'',
                    fd_value = ''2018-03-02 15:00:00'' \<rparr>]),
      message_context ''tomorrow at 3pm'') \<and>
   example_recognizer ''asdf'' ''en-us'' = [] \<and>
   DatetimePrompt_recognize None None example_recognizer (message_context ''asdf'') =
     (Inr None, message_context ''asdf'')"
proof -
  have loc: "spec_locale (a_locale (activity (message_context t))) None = ''en-us''" for t
    by (simp add: spec_locale_def message_context_def TurnContext_new_def example_request_def
        empty_activity_def truthy_def)
  have utt: "a_text (activity (message_context t)) = Some t" for t
    by (simp add: message_context_def TurnContext_new_def)
  have nomatch: "example_recognizer ''asdf'' ''en-us'' = []"
    by (simp add: example_recognizer_def)
  note match = datetime_recognize[where ctx = "message_context ''tomorrow at 3pm''"
      and defaultLocale = None and recognizer = example_recognizer and validator = None]
  note miss = datetime_recognize[where ctx = "message_context ''asdf''"
      and defaultLocale = None and recognizer = example_recognizer and validator = None]
  have r1: "DatetimePrompt_recognize None None example_recognizer
      (message_context ''tomorrow at 3pm'') =
     (Inr (Some [\<lparr> timex = ''2018-03-02T15'', fd_type = ''datetime'',
                    fd_value = ''2018-03-02 15:00:00'' \<rparr>]),
      message_context ''tomorrow at 3pm'')"
    using match by (simp add: loc utt example_recognizer_def spec_first_values_def validate_def)
  have r2: "DatetimePrompt_recognize None None example_recognizer (message_context ''asdf'') =
     (Inr None, message_context ''asdf'')"
  proof -
    have "example_recognizer ''asdf'' ''en-us'' = [] \<longrightarrow>
        DatetimePrompt_recognize None None example_recognizer (message_context ''asdf'') =
          (Inr None, message_context ''asdf'')"
      using miss[unfolded loc utt option.simps] by blast
    with nomatch show ?thesis by blast
  qed
  show ?thesis using r1 r2 nomatch by blast
qed

section \<open>Blob storage keys and reads\<close>

lemma split_no_sep: "sep \<notin> set s \<Longrightarrow> split sep s = [s]"
  by (induction s) auto

lemma split_not_Nil: "split sep s \<noteq> []"
  by (induction s) (auto split: list.splits)

lemma split_hd: "hd (split sep s) = takeWhile (\<lambda>c. c \<noteq> sep) s"
proof (induction s)
  case Nil
  then show ?case by simp
next
  case (Cons c cs)
  obtain x xs where "split sep cs = x # xs"
    using split_not_Nil[of sep cs] by (cases "split sep cs") auto
  with Cons show ?case by simp
qed

lemma sanitizeKey_first_segment:
  "key \<noteq> [] \<Longrightarrow>
     sanitizeKey key = Inr (take 1024 (escape (takeWhile (\<lambda>c. c \<noteq> CHR ''/'') key)))"
  by (simp add: sanitizeKey_def splice_def split_hd Let_def)

lemma sanitizeKey_no_slash:
  assumes "key \<noteq> []" "CHR ''/'' \<notin> set key"
  shows "sanitizeKey key = Inr (take 1024 (escape key))"
proof -
  have tw: "takeWhile (\<lambda>c. c \<noteq> CHR ''/'') key = key"
    using assms(2) by (induction key) auto
  show ?thesis using sanitizeKey_first_segment[OF assms(1)] unfolding tw .
qed

lemma div_16_less: "n < 256 \<Longrightarrow> n div 16 < (16 :: nat)"
  by (rule less_mult_imp_div_less) simp

lemma of_char_less_256: "(of_char c :: nat) < 256"
  using of_char_mod_256[of c, where ?'a = nat]
  by (metis mod_less_divisor zero_less_numeral)

lemma hex_digit_inj:
  assumes "a < 16" "b < 16" "hex_digit a = hex_digit b"
  shows "a = b"
proof -
  have "distinct ''0123456789ABCDEF''" by simp
  moreover have "a < length ''0123456789ABCDEF''" "b < length ''0123456789ABCDEF''"
    using assms by simp_all
  ultimately show ?thesis
    using assms(3) unfolding hex_digit_def by (simp only: nth_eq_iff_index_eq)
qed

lemma hex_pair_inj:
  assumes "hex_digit (of_char a div 16) = hex_digit (of_char b div 16)"
    and "hex_digit (of_char a mod 16) = hex_digit (of_char b mod 16)"
  shows "a = b"
proof -
  have hi: "(of_char a :: nat) div 16 < 16" "(of_char b :: nat) div 16 < 16"
    using of_char_less_256[of a] of_char_less_256[of b] by (simp_all add: div_16_less)
  have "(of_char a :: nat) div 16 = of_char b div 16"
    using hex_digit_inj[OF hi assms(1)] .
  moreover have "(of_char a :: nat) mod 16 = of_char b mod 16"
    using hex_digit_inj[OF _ _ assms(2)] by simp
  ultimately have "(of_char a :: nat) = of_char b"
    by (metis div_mult_mod_eq)
  then show ?thesis by simp
qed

lemma percent_reserved: "\<not> unreserved CHR ''%''"
  by (simp add: unreserved_def)

lemma escape_char_prefix_free:
  assumes "escape_char a @ xs = escape_char b @ ys"
  shows "a = b \<and> xs = ys"
proof (cases "unreserved a")
  case ua: True
  show ?thesis
  proof (cases "unreserved b")
    case True
    with ua assms show ?thesis by (simp add: escape_char_def)
  next
    case False
    with ua assms have "a = CHR ''%''" by (simp add: escape_char_def)
    with ua percent_reserved show ?thesis by simp
  qed
next
  case na: False
  show ?thesis
  proof (cases "unreserved b")
    case True
    with na assms have "b = CHR ''%''" by (simp add: escape_char_def)
    with True percent_reserved show ?thesis by simp
  next
    case False
    with na assms have "hex_digit (of_char a div 16) = hex_digit (of_char b div 16)"
      "hex_digit (of_char a mod 16) = hex_digit (of_char b mod 16)" "xs = ys"
      by (simp_all add: escape_char_def)
    then show ?thesis using hex_pair_inj by blast
  qed
qed

lemma escape_char_not_Nil: "escape_char c \<noteq> []"
  by (simp add: escape_char_def)

lemma escape_inj: "escape k1 = escape k2 \<Longrightarrow> k1 = k2"
proof (induction k1 arbitrary: k2)
  case Nil
  then show ?case
    by (cases k2) (simp_all add: escape_def escape_char_not_Nil)
next
  case (Cons a k1)
  show ?case
  proof (cases k2)
    case Nil
    with Cons.prems show ?thesis by (simp add: escape_def escape_char_not_Nil)
  next
    case (Cons b k2')
    with Cons.prems have "escape_char a @ escape k1 = escape_char b @ escape k2'"
      by (simp add: escape_def)
    then have "a = b \<and> escape k1 = escape k2'" by (rule escape_char_prefix_free)
    then show ?thesis using Cons.IH Cons by blast
  qed
qed

lemma hex_digit_unreserved: "n < 16 \<Longrightarrow> unreserved (hex_digit n)"
proof -
  assume "n < 16"
  then have "hex_digit n \<in> set ''0123456789ABCDEF''"
    unfolding hex_digit_def by (intro nth_mem) simp
  then show ?thesis by (auto simp: unreserved_def)
qed

lemma escape_char_safe: "list_all safe_char (escape_char c)"
proof -
  have "(of_char c :: nat) div 16 < 16" using of_char_less_256[of c] by (simp add: div_16_less)
  then show ?thesis
    by (simp add: escape_char_def safe_char_def hex_digit_unreserved)
qed

lemma escape_safe: "list_all safe_char (escape s)"
  by (induction s) (simp_all add: escape_def escape_char_safe)

lemma list_all_take: "list_all P xs \<Longrightarrow> list_all P (take n xs)"
  by (metis append_take_drop_id list_all_append)

lemma escape_append: "escape (xs @ ys) = escape xs @ escape ys"
  by (simp add: escape_def)

lemma escape_replicate: "unreserved c \<Longrightarrow> escape (replicate n c) = replicate n c"
  by (induction n) (simp_all add: escape_def escape_char_def)

text \<open>
  Claim C9, as amended. \<open>sanitizeKey\<close> rejects the empty key. For every other key
  the result has at most 1024 characters, each one unescaped by \<^verbatim>\<open>querystring.escape\<close> or
  the percent sign. On keys without a slash whose escaped form has at most 1024
  characters it is injective: two distinct such keys have distinct blob names. (Longer
  keys are cut at 1024 characters, below; what happens to keys with a slash is not
  part of this statement.)
\<close>

theorem sanitizeKey_reversible:
  "sanitizeKey [] = Inl KeyRequired \<and>
   (key \<noteq> [] \<longrightarrow>
      (\<exists>s. sanitizeKey key = Inr s \<and> length s \<le> 1024 \<and> list_all safe_char s)) \<and>
   (k1 \<noteq> [] \<and> k2 \<noteq> [] \<and> CHR ''/'' \<notin> set k1 \<and> CHR ''/'' \<notin> set k2 \<and>
    length (escape k1) \<le> 1024 \<and> length (escape k2) \<le> 1024 \<and> k1 \<noteq> k2 \<longrightarrow>
      sanitizeKey k1 \<noteq> sanitizeKey k2)"
proof (intro conjI impI)
  show "sanitizeKey [] = Inl KeyRequired" by (simp add: sanitizeKey_def)
next
  assume "key \<noteq> []"
  then show "\<exists>s. sanitizeKey key = Inr s \<and> length s \<le> 1024 \<and> list_all safe_char s"
    by (simp add: sanitizeKey_first_segment list_all_take escape_safe)
next
  assume a: "k1 \<noteq> [] \<and> k2 \<noteq> [] \<and> CHR ''/'' \<notin> set k1 \<and> CHR ''/'' \<notin> set k2 \<and>
    length (escape k1) \<le> 1024 \<and> length (escape k2) \<le> 1024 \<and> k1 \<noteq> k2"
  then have ne: "k1 \<noteq> []" "k2 \<noteq> []" and ns: "CHR ''/'' \<notin> set k1" "CHR ''/'' \<notin> set k2"
    and len: "length (escape k1) \<le> 1024" "length (escape k2) \<le> 1024"
    and diff: "k1 \<noteq> k2"
    by blast+
  show "sanitizeKey k1 \<noteq> sanitizeKey k2"
  proof
    assume eq: "sanitizeKey k1 = sanitizeKey k2"
    have "Inr (take 1024 (escape k1)) = (Inr (take 1024 (escape k2)) :: error + string)"
      using eq sanitizeKey_no_slash[OF ne(1) ns(1)] sanitizeKey_no_slash[OF ne(2) ns(2)]
      by (simp only:)
    then have "take 1024 (escape k1) = take 1024 (escape k2)" by (simp only: sum.inject)
    moreover have "take 1024 (escape k1) = escape k1" "take 1024 (escape k2) = escape k2"
      using len by simp_all
    ultimately have "escape k1 = escape k2" by (simp only:)
    then have "k1 = k2" by (rule escape_inj)
    with diff show False by blast
  qed
qed

theorem sanitizeKey_reversible_witness:
  "sanitizeKey ''user 1'' = Inr ''user%201'' \<and>
   sanitizeKey ''user%201'' = Inr ''user%25201'' \<and>
   length (escape ''user 1'') \<le> 1024 \<and> length (escape ''user%201'') \<le> 1024 \<and>
   sanitizeKey ''user 1'' \<noteq> sanitizeKey ''user%201''"
proof -
  have e1: "escape ''user 1'' = ''user%201''"
    by (simp add: escape_def escape_char_def unreserved_def hex_digit_def)
  have e2: "escape ''user%201'' = ''user%25201''"
    by (simp add: escape_def escape_char_def unreserved_def hex_digit_def)
  have s1: "sanitizeKey ''user 1'' = Inr ''user%201''"
    using sanitizeKey_no_slash[of "''user 1''"] by (simp add: e1)
  have s2: "sanitizeKey ''user%201'' = Inr ''user%25201''"
    using sanitizeKey_no_slash[of "''user%201''"] by (simp add: e2)
  have "sanitizeKey ''user 1'' \<noteq> sanitizeKey ''user%201''"
    using sanitizeKey_reversible[where ?k1.0 = "''user 1''" and ?k2.0 = "''user%201''"]
    by (simp add: e1 e2)
  then show ?thesis using s1 s2 by (simp add: e1 e2)
qed

text \<open>
  The claim as stated fails on long keys: two distinct keys of 1025 characters that
  agree on the first 1024 have the same blob name.
\<close>

theorem sanitizeKey_counterexample:
  "replicate 1024 CHR ''a'' @ ''b'' \<noteq> replicate 1024 CHR ''a'' @ ''c'' \<and>
   sanitizeKey (replicate 1024 CHR ''a'' @ ''b'') = Inr (replicate 1024 CHR ''a'') \<and>
   sanitizeKey (replicate 1024 CHR ''a'' @ ''c'') = Inr (replicate 1024 CHR ''a'')"
proof -
  have ua: "unreserved CHR ''a''" by (simp add: unreserved_def)
  have e: "escape (replicate 1024 CHR ''a'' @ [x]) = replicate 1024 CHR ''a'' @ escape [x]" for x
    by (simp only: escape_append escape_replicate[OF ua])
  have s: "sanitizeKey (replicate 1024 CHR ''a'' @ [x]) = Inr (replicate 1024 CHR ''a'')"
    if "x \<noteq> CHR ''/''" for x
  proof -
    have "sanitizeKey (replicate 1024 CHR ''a'' @ [x]) =
        Inr (take 1024 (escape (replicate 1024 CHR ''a'' @ [x])))"
      using that by (intro sanitizeKey_no_slash) auto
    then show ?thesis by (simp add: e)
  qed
  show ?thesis using s[of "CHR ''b''"] s[of "CHR ''c''"] by simp
qed

text \<open>
  Keys with a slash: \<^verbatim>\<open>segments.splice(0)\<close> empties the list of segments, so the
  \<^verbatim>\<open>reduce\<close> that was to join them returns the first segment alone
  (\<open>sanitizeKey_first_segment\<close>), and two keys that differ after the first slash
  collide.
\<close>

lemma sanitizeKey_drops_later_segments:
  "sanitizeKey ''a/b'' = Inr ''a'' \<and> sanitizeKey ''a/c'' = Inr ''a''"
  by (simp add: sanitizeKey_first_segment escape_def escape_char_def unreserved_def)

text \<open>
  Claim C10, as amended. For an empty array of keys, \<open>read\<close> throws nothing and returns a promise
  that is never fulfilled, whatever the storage does: once the promise of the container
  is fulfilled, the promise made inside is resolved only for a non-empty list of items
  and rejected nowhere, so the returned promise never settles. It stays pending too
  while the promise of the container does, and it is rejected only when the promise of
  the container itself is.
\<close>

theorem read_empty_keys:
  "read JSON_parse this (Some []) cc =
     (Returns (case fst (ensureContainerExists this cc) of
                 Fulfilled container \<Rightarrow> Pending
               | Rejected e \<Rightarrow> Rejected e
               | Pending \<Rightarrow> Pending),
      snd (ensureContainerExists this cc)) \<and>
   (fst (ensureContainerExists this cc) = Fulfilled container \<longrightarrow>
      read JSON_parse this (Some []) cc =
        (Returns Pending, snd (ensureContainerExists this cc))) \<and>
   fst (read JSON_parse this (Some []) cc) \<noteq> Returns (Fulfilled storeItems)"
  by (auto simp: read_def then_promise_def split_beta split: promise.splits)

theorem read_empty_keys_witness:
  "fst (ensureContainerExists (example_storage (Fulfilled example_container)) []) =
     Fulfilled example_container \<and>
   read example_parse (example_storage (Fulfilled example_container)) (Some []) [] =
     (Returns Pending, [(''bot-state'', Fulfilled example_container)]) \<and>
   read example_parse (example_storage Pending) (Some []) [] =
     (Returns Pending, [(''bot-state'', Pending)])"
proof -
  have e: "ensureContainerExists (example_storage p) [] = (p, [(''bot-state'', p)])" for p
    by (simp add: ensureContainerExists_def example_storage_def)
  note ok = read_empty_keys[where this = "example_storage (Fulfilled example_container)"
      and cc = "[]" and JSON_parse = example_parse and container = example_container]
  note waiting = read_empty_keys[where this = "example_storage Pending" and cc = "[]"
      and JSON_parse = example_parse]
  show ?thesis using ok waiting by (simp add: e)
qed

text \<open>
  The claim as stated says that the promise never settles. When the container cannot
  be provisioned, the promise that \<open>read\<close> returns for an empty array of keys is
  rejected with the error of the provisioning.
\<close>

theorem read_empty_keys_counterexample:
  "read example_parse failing_storage (Some []) [] =
     (Returns (Rejected (Failure ''no network'')),
      [(''bot-state'', Rejected (Failure ''no network''))])"
  by (simp add: read_def failing_storage_def example_storage_def ensureContainerExists_def
      then_promise_def Let_def)

end
